theory Spec2Isabelle
  imports Complex_Main "HOL-Library.Word"
begin

section \<open>Fixed-point decimals\<close>

text \<open>
  Amounts are \<^verbatim>\<open>decimal.Decimal\<close> values of the shopspring library: an unbounded
  integer coefficient and a base-ten exponent, denoting \<open>coef * 10 ^ expo\<close>.  The library is
  not part of the repository; the operations the red-envelope code calls are modelled after the
  library's documented algorithms on this representation (the \<^verbatim>\<open>int32\<close> exponent is
  an unbounded \<open>int\<close> here, exponents in this program stay between -19 and small positive
  numbers).  \<open>big.Int\<close> quotients truncate towards zero.
\<close>

datatype decimal = Decimal (coef: int) (expo: int)

definition quo :: "int \<Rightarrow> int \<Rightarrow> int" where
  "quo a b = sgn a * sgn b * (\<bar>a\<bar> div \<bar>b\<bar>)"

definition rem :: "int \<Rightarrow> int \<Rightarrow> int" where
  "rem a b = a - b * quo a b"

definition rescale :: "decimal \<Rightarrow> int \<Rightarrow> decimal" where
  "rescale d e =
     (if expo d = e then d
      else let diff = nat \<bar>e - expo d\<bar> in
        if e > expo d then Decimal (quo (coef d) (10 ^ diff)) e
        else Decimal (coef d * 10 ^ diff) e)"

definition RescalePair :: "decimal \<Rightarrow> decimal \<Rightarrow> decimal \<times> decimal" where
  "RescalePair d1 d2 =
     (if expo d1 = expo d2 then (d1, d2)
      else let baseScale = min (expo d1) (expo d2) in
        if baseScale \<noteq> expo d1 then (rescale d1 baseScale, d2)
        else (d1, rescale d2 baseScale))"

definition Add :: "decimal \<Rightarrow> decimal \<Rightarrow> decimal" where
  "Add d d2 = (case RescalePair d d2 of (rd, rd2) \<Rightarrow> Decimal (coef rd + coef rd2) (expo rd))"

definition Sub :: "decimal \<Rightarrow> decimal \<Rightarrow> decimal" where
  "Sub d d2 = (case RescalePair d d2 of (rd, rd2) \<Rightarrow> Decimal (coef rd - coef rd2) (expo rd))"

definition Mul :: "decimal \<Rightarrow> decimal \<Rightarrow> decimal" where
  "Mul d d2 = Decimal (coef d * coef d2) (expo d + expo d2)"

definition Abs :: "decimal \<Rightarrow> decimal" where
  "Abs d = Decimal \<bar>coef d\<bar> (expo d)"

definition Cmp :: "decimal \<Rightarrow> decimal \<Rightarrow> int" where
  "Cmp d d2 =
     (case RescalePair d d2 of (rd, rd2) \<Rightarrow>
        if coef rd < coef rd2 then -1 else if coef rd = coef rd2 then 0 else 1)"

definition LessThan :: "decimal \<Rightarrow> decimal \<Rightarrow> bool" where
  "LessThan d d2 = (Cmp d d2 = -1)"

definition GreaterThan :: "decimal \<Rightarrow> decimal \<Rightarrow> bool" where
  "GreaterThan d d2 = (Cmp d d2 = 1)"

definition LessThanOrEqual :: "decimal \<Rightarrow> decimal \<Rightarrow> bool" where
  "LessThanOrEqual d d2 = (let cmp = Cmp d d2 in cmp = -1 \<or> cmp = 0)"

definition Sign :: "decimal \<Rightarrow> int" where
  "Sign d = sgn (coef d)"

definition IsPositive :: "decimal \<Rightarrow> bool" where
  "IsPositive d = (Sign d = 1)"

definition IsZero :: "decimal \<Rightarrow> bool" where
  "IsZero d = (Sign d = 0)"

definition Exponent :: "decimal \<Rightarrow> int" where
  "Exponent d = expo d"

definition Zero :: decimal where
  "Zero = Decimal 0 1"

definition NewFromInt :: "int \<Rightarrow> decimal" where
  "NewFromInt n = Decimal n 0"

text \<open>
  \<^verbatim>\<open>QuoRem\<close> divides to a given number of decimal places, truncating; it panics on a
  zero divisor (\<open>None\<close>).  \<^verbatim>\<open>DivRound\<close> then rounds the last place half away from zero,
  and \<^verbatim>\<open>Div\<close> is \<^verbatim>\<open>DivRound\<close> at the library's \<^verbatim>\<open>DivisionPrecision = 16\<close>.
\<close>

definition QuoRem :: "decimal \<Rightarrow> decimal \<Rightarrow> int \<Rightarrow> (decimal \<times> decimal) option" where
  "QuoRem d d2 precision =
     (if coef d2 = 0 then None
      else let scale = - precision; e = expo d - expo d2 - scale in
        if e < 0 then
          let aa = coef d; bb = coef d2 * 10 ^ nat (- e) in
            Some (Decimal (quo aa bb) scale, Decimal (rem aa bb) (expo d))
        else
          let aa = coef d * 10 ^ nat e; bb = coef d2 in
            Some (Decimal (quo aa bb) scale, Decimal (rem aa bb) (scale + expo d2)))"

definition DivRound :: "decimal \<Rightarrow> decimal \<Rightarrow> int \<Rightarrow> decimal option" where
  "DivRound d d2 precision =
     (case QuoRem d d2 precision of
        None \<Rightarrow> None
      | Some (q, r) \<Rightarrow>
          let r2 = Decimal (\<bar>coef r\<bar> * 2) (expo r + precision); c = Cmp r2 (Abs d2) in
            if c < 0 then Some q
            else if sgn (coef d) * sgn (coef d2) < 0 then Some (Sub q (Decimal 1 (- precision)))
            else Some (Add q (Decimal 1 (- precision))))"

definition DivisionPrecision :: int where
  "DivisionPrecision = 16"

definition Div :: "decimal \<Rightarrow> decimal \<Rightarrow> decimal option" where
  "Div d d2 = DivRound d d2 DivisionPrecision"

text \<open>
  \<^verbatim>\<open>Round\<close> rounds to the given number of places, half away from zero: it truncates to
  one more place, adds five in the direction of the sign and drops the last digit.
\<close>

definition Round :: "decimal \<Rightarrow> int \<Rightarrow> decimal" where
  "Round d places =
     (if expo d = - places then d
      else let ret = rescale d (- places - 1);
               v = (if coef ret < 0 then coef ret - 5 else coef ret + 5);
               q = v div 10; m = v mod 10
           in Decimal (if q < 0 \<and> m \<noteq> 0 then q + 1 else q) (expo ret + 1))"

text \<open>
  \<^verbatim>\<open>IntPart\<close> truncates to an integer and returns it as an \<^verbatim>\<open>int64\<close>:
  \<^verbatim>\<open>big.Int.Int64\<close> keeps the low 64 bits of the magnitude and negates them for a
  negative number.
\<close>

definition Int64 :: "int \<Rightarrow> int" where
  "Int64 x = (let v = (word_of_int \<bar>x\<bar> :: 64 word) in sint (if x < 0 then - v else v))"

definition IntPart :: "decimal \<Rightarrow> int" where
  "IntPart d = Int64 (coef (rescale d 0))"

text \<open>The number a decimal denotes.\<close>

definition dval :: "decimal \<Rightarrow> rat" where
  "dval d = of_int (coef d) * 10 powi (expo d)"


section \<open>Data model\<close>

text \<open>
  Modelled from the spec: the struct declarations of package \<^verbatim>\<open>model\<close>
  (\<^verbatim>\<open>RedEnvelope\<close>, \<^verbatim>\<open>RedEnvelopeClaim\<close>, \<^verbatim>\<open>Order\<close>, \<^verbatim>\<open>User\<close>) and its
  type and status constants are not among the sources.  The records have the fields of the
  spec's data model that the handlers read and write, under the names the handlers use.  Row
  identifiers are \<^verbatim>\<open>uint64\<close>, counts are Go \<^verbatim>\<open>int\<close>, times are instants on one
  clock, counted in nanoseconds.  Of an order only the payer, the payee, the amount and the type
  tag are kept; the sweeper writes the literal tag \<^verbatim>\<open>red_envelope_refund\<close>.
\<close>

datatype RedEnvelopeType = RedEnvelopeTypeFixed | RedEnvelopeTypeRandom

datatype RedEnvelopeStatus =
  RedEnvelopeStatusActive | RedEnvelopeStatusFinished | RedEnvelopeStatusExpired

record RedEnvelope =
  ID :: nat
  Code :: string
  CreatorID :: nat
  Type :: RedEnvelopeType
  TotalAmount :: decimal
  RemainingAmount :: decimal
  TotalCount :: int
  RemainingCount :: int
  Greeting :: string
  Status :: RedEnvelopeStatus
  ExpiresAt :: int

record RedEnvelopeClaim =
  RedEnvelopeID :: nat
  UserID :: nat
  Amount :: decimal

datatype OrderType =
  OrderTypeRedEnvelopeSend | OrderTypeRedEnvelopeReceive | OrderTypeLiteral string

record Order =
  PayerUserID :: nat
  PayeeUserID :: nat
  OrderAmount :: decimal
  OrderKind :: OrderType

text \<open>
  The store: the \<^verbatim>\<open>available_balance\<close> column of the users table by user id, the
  envelope, claim and order tables in insertion order, and the next auto-increment envelope id.
\<close>

record DB =
  users :: "nat \<rightharpoonup> decimal"
  red_envelopes :: "RedEnvelope list"
  red_envelope_claims :: "RedEnvelopeClaim list"
  orders :: "Order list"
  next_id :: nat

text \<open>
  Modelled from the spec: the message constants of the error conditions
  (\<^verbatim>\<open>RedEnvelopeNotFound\<close>, \<^verbatim>\<open>AmountTooSmall\<close>, \<^verbatim>\<open>common.PayKeyIncorrect\<close>,
  \<open>\<dots>\<close>) are declared outside the sources; the spec gives each condition an identifier of its
  own, so each is a constructor.  \<open>FeatureDisabled\<close> and \<open>BindError\<close> are the two answers the
  handlers build in place, and \<open>InternalError\<close> stands for the status-500 answers: a store error
  (the creator's row is missing) or a recovered panic (division by zero, \<^verbatim>\<open>rand.Int63n\<close> on a
  non-positive argument).
\<close>

datatype error =
  FeatureDisabled | BindError
  | InvalidRedEnvelopeAmount | AmountDecimalPlacesExceeded | AmountTooSmall | PayKeyIncorrect
  | InsufficientBalance
  | RedEnvelopeNotFound | RedEnvelopeExpired | RedEnvelopeFinished | RedEnvelopeAlreadyClaimed
  | CannotClaimOwnRedEnvelope
  | InternalError

section \<open>Allocation: \<^verbatim>\<open>calculateRandomAmount\<close>\<close>

text \<open>\<^verbatim>\<open>decimal.NewFromFloat(0.01)\<close> is the decimal with coefficient 1 and exponent -2.\<close>

definition minAmount :: decimal where
  "minAmount = Decimal 1 (- 2)"

text \<open>
  \<^verbatim>\<open>rand.Int63n(n)\<close> panics for \<open>n \<le> 0\<close> and otherwise returns some number from \<open>0\<close> to
  \<open>n - 1\<close>.  The generator's state is the parameter \<open>seed\<close>: every possible draw is
  \<open>seed mod n\<close> for some seed, and every seed gives a possible draw.  The argument
  \<^verbatim>\<open>diffCents + 1\<close> is an \<^verbatim>\<open>int64\<close> sum and wraps.  The parameter \<open>count\<close> is a Go
  \<^verbatim>\<open>int\<close>; \<^verbatim>\<open>count - 1\<close> does not overflow for the counts \<open>count \<ge> 1\<close> that
  \<^verbatim>\<open>Claim\<close> passes, so it is an \<open>int\<close> here.  \<open>None\<close> is a panic.
\<close>

definition Int63n :: "int \<Rightarrow> int \<Rightarrow> int option" where
  "Int63n seed n = (if n \<le> 0 then None else Some (seed mod n))"

definition add_int64 :: "int \<Rightarrow> int \<Rightarrow> int" where
  "add_int64 a b = sint (word_of_int a + word_of_int b :: 64 word)"

definition calculateRandomAmount :: "int \<Rightarrow> decimal \<Rightarrow> int \<Rightarrow> decimal option" where
  "calculateRandomAmount seed remaining count =
     (if count = 1 then Some remaining
      else let minRequired = Mul minAmount (NewFromInt count) in
        if LessThan remaining minRequired then
          map_option (\<lambda>q. Round q 2) (Div remaining (NewFromInt count))
        else
          case Div remaining (NewFromInt count) of
            None \<Rightarrow> None
          | Some avg \<Rightarrow>
              let maxAmount0 = Mul avg (NewFromInt 2);
                  maxPossible = Sub remaining (Mul minAmount (NewFromInt (count - 1)));
                  maxAmount1 = (if GreaterThan maxAmount0 maxPossible then maxPossible else maxAmount0);
                  maxAmount = (if LessThan maxAmount1 minAmount then minAmount else maxAmount1);
                  diff = Sub maxAmount minAmount
              in if LessThanOrEqual diff Zero then Some minAmount
                 else let diffCents = IntPart (Mul diff (NewFromInt 100)) in
                   if diffCents \<le> 0 then Some minAmount
                   else case Int63n seed (add_int64 diffCents 1) of
                     None \<Rightarrow> None
                   | Some randCents \<Rightarrow>
                       (case Div (NewFromInt randCents) (NewFromInt 100) of
                          None \<Rightarrow> None
                        | Some randAmount \<Rightarrow> Some (Round (Add minAmount randAmount) 2)))"

section \<open>The lifecycle handlers\<close>

subsection \<open>\<^verbatim>\<open>Create\<close>\<close>

record CreateRequest =
  ReqType :: RedEnvelopeType
  ReqTotalAmount :: decimal
  ReqTotalCount :: int
  ReqGreeting :: string
  ReqPayKey :: string

text \<open>
  The binding tags of \<^verbatim>\<open>CreateRequest\<close>: the count is required and at least 1, the greeting
  has at most 100 characters, the pay key is required and has at most 10.  The type is one of the
  two constructors by its type.
\<close>

definition ShouldBindJSON :: "CreateRequest \<Rightarrow> bool" where
  "ShouldBindJSON req =
     (ReqTotalCount req \<ge> 1 \<and> length (ReqGreeting req) \<le> 100 \<and>
      ReqPayKey req \<noteq> [] \<and> length (ReqPayKey req) \<le> 10)"

definition hours24 :: int where
  "hours24 = 24 * 3600 * 1000000000"

text \<open>
  The checks \<^verbatim>\<open>Create\<close> makes before it opens its transaction, in the handler's order.
  \<open>enabled\<close> is the answer of \<^verbatim>\<open>model.IsRedEnvelopeEnabled\<close> and \<open>VerifyPayKey\<close> that of
  the current user's \<^verbatim>\<open>VerifyPayKey\<close>; both belong to collaborators outside the package.
\<close>

definition Create_checks :: "bool \<Rightarrow> (string \<Rightarrow> bool) \<Rightarrow> CreateRequest \<Rightarrow> error option" where
  "Create_checks enabled VerifyPayKey req =
     (if \<not> enabled then Some FeatureDisabled
      else if \<not> ShouldBindJSON req then Some BindError
      else if LessThanOrEqual (ReqTotalAmount req) Zero then Some InvalidRedEnvelopeAmount
      else if Exponent (ReqTotalAmount req) < - 2 then Some AmountDecimalPlacesExceeded
      else case (if ReqType req = RedEnvelopeTypeFixed then
                   (case Div (ReqTotalAmount req) (NewFromInt (ReqTotalCount req)) of
                      None \<Rightarrow> Some InternalError
                    | Some perAmount \<Rightarrow>
                        if LessThan perAmount minAmount then Some AmountTooSmall else None)
                 else None) of
             Some err \<Rightarrow> Some err
           | None \<Rightarrow> if \<not> VerifyPayKey (ReqPayKey req) then Some PayKeyIncorrect else None)"

text \<open>
  The transaction of \<^verbatim>\<open>Create\<close>: lock and read the creator's row, check and debit the
  balance, insert the envelope and the order.  An error leaves the store as it was (the
  transaction rolls back), so the result is either the error or the new store.
\<close>

definition Create_tx ::
  "string \<Rightarrow> int \<Rightarrow> nat \<Rightarrow> CreateRequest \<Rightarrow> DB \<Rightarrow> error + (RedEnvelope \<times> DB)" where
  "Create_tx code now currentUser req db =
     (case users db currentUser of
        None \<Rightarrow> Inl InternalError
      | Some balance \<Rightarrow>
          if LessThan balance (ReqTotalAmount req) then Inl InsufficientBalance
          else let redEnvelope =
                 \<lparr>ID = next_id db, Code = code, CreatorID = currentUser, Type = ReqType req,
                  TotalAmount = ReqTotalAmount req, RemainingAmount = ReqTotalAmount req,
                  TotalCount = ReqTotalCount req, RemainingCount = ReqTotalCount req,
                  Greeting = ReqGreeting req, Status = RedEnvelopeStatusActive,
                  ExpiresAt = now + hours24\<rparr>;
                 order = \<lparr>PayerUserID = currentUser, PayeeUserID = currentUser,
                  OrderAmount = ReqTotalAmount req, OrderKind = OrderTypeRedEnvelopeSend\<rparr>
            in Inr (redEnvelope,
                 db\<lparr>users := (users db)(currentUser \<mapsto> Sub balance (ReqTotalAmount req)),
                    red_envelopes := red_envelopes db @ [redEnvelope],
                    orders := orders db @ [order],
                    next_id := Suc (next_id db)\<rparr>))"

definition Create ::
  "bool \<Rightarrow> (string \<Rightarrow> bool) \<Rightarrow> string \<Rightarrow> int \<Rightarrow> nat \<Rightarrow> CreateRequest \<Rightarrow> DB
     \<Rightarrow> (error + (nat \<times> string)) \<times> DB" where
  "Create enabled VerifyPayKey code now currentUser req db =
     (case Create_checks enabled VerifyPayKey req of
        Some err \<Rightarrow> (Inl err, db)
      | None \<Rightarrow>
          (case Create_tx code now currentUser req db of
             Inl err \<Rightarrow> (Inl err, db)
           | Inr (redEnvelope, db') \<Rightarrow> (Inr (ID redEnvelope, code), db')))"


subsection \<open>\<^verbatim>\<open>Claim\<close>\<close>

text \<open>
  The share of the current claimant, as the transaction computes it from the locked row.
  \<open>None\<close> is a panic of the decimal library.
\<close>

definition claimedAmount_of :: "int \<Rightarrow> RedEnvelope \<Rightarrow> decimal option" where
  "claimedAmount_of seed redEnvelope =
     (if Type redEnvelope = RedEnvelopeTypeFixed then
        (if RemainingCount redEnvelope = 1 then Some (RemainingAmount redEnvelope)
         else map_option (\<lambda>q. Round q 2)
                (Div (TotalAmount redEnvelope) (NewFromInt (TotalCount redEnvelope))))
      else calculateRandomAmount seed (RemainingAmount redEnvelope) (RemainingCount redEnvelope))"

text \<open>
  An \<^verbatim>\<open>UPDATE users SET available_balance = available_balance + ? WHERE id = ?\<close>
  changes the row of that user if there is one.
\<close>

definition credit :: "nat \<Rightarrow> decimal \<Rightarrow> (nat \<rightharpoonup> decimal) \<Rightarrow> (nat \<rightharpoonup> decimal)" where
  "credit uid amount us =
     (case us uid of None \<Rightarrow> us | Some balance \<Rightarrow> us(uid \<mapsto> Add balance amount))"

text \<open>
  The transaction of \<^verbatim>\<open>Claim\<close>.  The row lock is taken at once in this sequential model
  (\<^verbatim>\<open>NOWAIT\<close> contention is between concurrent transactions); \<open>now\<close> is the reading of
  \<^verbatim>\<open>time.Now()\<close> at the expiry check.
\<close>

definition Claim_tx ::
  "int \<Rightarrow> string \<Rightarrow> nat \<Rightarrow> int \<Rightarrow> DB \<Rightarrow> error + (decimal \<times> RedEnvelope \<times> DB)" where
  "Claim_tx seed code currentUser now db =
     (case find (\<lambda>e. Code e = code) (red_envelopes db) of
        None \<Rightarrow> Inl RedEnvelopeNotFound
      | Some redEnvelope \<Rightarrow>
          if Status redEnvelope = RedEnvelopeStatusExpired \<or> ExpiresAt redEnvelope < now
          then Inl RedEnvelopeExpired
          else if Status redEnvelope = RedEnvelopeStatusFinished \<or> RemainingCount redEnvelope \<le> 0
          then Inl RedEnvelopeFinished
          else if list_ex (\<lambda>c. RedEnvelopeID c = ID redEnvelope \<and> UserID c = currentUser)
                    (red_envelope_claims db)
          then Inl RedEnvelopeAlreadyClaimed
          else case claimedAmount_of seed redEnvelope of
            None \<Rightarrow> Inl InternalError
          | Some claimedAmount \<Rightarrow>
              let claim = \<lparr>RedEnvelopeID = ID redEnvelope, UserID = currentUser,
                           Amount = claimedAmount\<rparr>;
                  newRemainingCount = RemainingCount redEnvelope - 1;
                  newRemainingAmount = Sub (RemainingAmount redEnvelope) claimedAmount;
                  newStatus = (if newRemainingCount \<le> 0 then RedEnvelopeStatusFinished
                               else Status redEnvelope);
                  upd = (\<lambda>e. e\<lparr>RemainingCount := newRemainingCount,
                                 RemainingAmount := newRemainingAmount,
                                 Status := newStatus\<rparr>);
                  order = \<lparr>PayerUserID = CreatorID redEnvelope, PayeeUserID = currentUser,
                            OrderAmount = claimedAmount, OrderKind = OrderTypeRedEnvelopeReceive\<rparr>
              in Inr (claimedAmount, upd redEnvelope,
                   db\<lparr>users := credit currentUser claimedAmount (users db),
                      red_envelopes :=
                        map (\<lambda>e. if ID e = ID redEnvelope then upd e else e) (red_envelopes db),
                      red_envelope_claims := red_envelope_claims db @ [claim],
                      orders := orders db @ [order]\<rparr>))"

text \<open>
  The handler: the feature check, the binding of \<^verbatim>\<open>ClaimRequest\<close> (the code is required)
  and the transaction; an error of the transaction rolls it back.
\<close>

definition Claim ::
  "bool \<Rightarrow> int \<Rightarrow> string \<Rightarrow> nat \<Rightarrow> int \<Rightarrow> DB \<Rightarrow> (error + (decimal \<times> RedEnvelope)) \<times> DB" where
  "Claim enabled seed code currentUser now db =
     (if \<not> enabled then (Inl FeatureDisabled, db)
      else if code = [] then (Inl BindError, db)
      else case Claim_tx seed code currentUser now db of
        Inl err \<Rightarrow> (Inl err, db)
      | Inr (claimedAmount, redEnvelope, db') \<Rightarrow> (Inr (claimedAmount, redEnvelope), db'))"

section \<open>The expiry sweeper\<close>

text \<open>
  \<^verbatim>\<open>refundExpiredRedEnvelopes\<close> first reads the overdue envelopes, then runs one transaction
  for each row it has read.  The transaction works on the store as it is then, and on the copy of
  the row that the query returned.
\<close>

definition expired_query :: "int \<Rightarrow> DB \<Rightarrow> RedEnvelope list" where
  "expired_query now db =
     filter (\<lambda>e. Status e = RedEnvelopeStatusActive \<and> ExpiresAt e < now \<and>
                  IsPositive (RemainingAmount e)) (red_envelopes db)"

definition refund_tx :: "RedEnvelope \<Rightarrow> DB \<Rightarrow> DB" where
  "refund_tx envelope db =
     (let db1 = db\<lparr>red_envelopes :=
                  map (\<lambda>e. if ID e = ID envelope \<and> Status e = RedEnvelopeStatusActive
                            then e\<lparr>Status := RedEnvelopeStatusExpired,
                                   RemainingAmount := NewFromInt 0, RemainingCount := 0\<rparr>
                            else e) (red_envelopes db)\<rparr>
      in if IsPositive (RemainingAmount envelope) then
           db1\<lparr>users := credit (CreatorID envelope) (RemainingAmount envelope) (users db1),
               orders := orders db1 @
                 [\<lparr>PayerUserID = CreatorID envelope, PayeeUserID = CreatorID envelope,
                   OrderAmount = RemainingAmount envelope,
                   OrderKind = OrderTypeLiteral ''red_envelope_refund''\<rparr>]\<rparr>
         else db1)"

primrec refund_each :: "RedEnvelope list \<Rightarrow> DB \<Rightarrow> DB" where
  "refund_each [] db = db"
| "refund_each (envelope # rest) db = refund_each rest (refund_tx envelope db)"

definition refundExpiredRedEnvelopes :: "int \<Rightarrow> DB \<Rightarrow> DB" where
  "refundExpiredRedEnvelopes now db =
     (let expiredEnvelopes = expired_query now db in
        if length expiredEnvelopes = 0 then db else refund_each expiredEnvelopes db)"

section \<open>Reachable stores\<close>

text \<open>
  The stores the three operations produce from one with no envelopes and no claims.  A sweeper
  transaction may also run on a row that an earlier query returned, after other operations.
\<close>

inductive reachable :: "DB \<Rightarrow> bool" where
  at_start: "reachable \<lparr>users = us, red_envelopes = [], red_envelope_claims = [], orders = [],
                       next_id = n\<rparr>"
| by_Create: "reachable db \<Longrightarrow>
     Create enabled VerifyPayKey code now currentUser req db = (Inr r, db') \<Longrightarrow> reachable db'"
| by_Claim: "reachable db \<Longrightarrow>
     Claim enabled seed code currentUser now db = (Inr r, db') \<Longrightarrow> reachable db'"
| by_sweep: "reachable db \<Longrightarrow> reachable (refundExpiredRedEnvelopes now db)"
| by_refund_tx: "reachable db0 \<Longrightarrow> envelope \<in> set (expired_query now db0) \<Longrightarrow> reachable db \<Longrightarrow>
     reachable (refund_tx envelope db)"




definition finished_empty :: "RedEnvelope \<Rightarrow> bool" where
  "finished_empty e =
     (if Status e = RedEnvelopeStatusFinished then IsZero (RemainingAmount e) \<and> RemainingCount e = 0
      else True)"

text \<open>
  A Random envelope holds a whole number of cents between zero and its total; envelope ids are
  distinct and below the next id.
\<close>

definition random_within :: "RedEnvelope \<Rightarrow> bool" where
  "random_within e =
     (if Type e = RedEnvelopeTypeRandom
      then 0 \<le> dval (RemainingAmount e) \<and> dval (RemainingAmount e) \<le> dval (TotalAmount e) \<and>
           - 2 \<le> expo (RemainingAmount e)
      else True)"

definition well_kept :: "DB \<Rightarrow> bool" where
  "well_kept db =
     (distinct (map ID (red_envelopes db)) \<and>
      list_all (\<lambda>e. ID e < next_id db \<and> random_within e) (red_envelopes db))"

text \<open>
  What \<^verbatim>\<open>Create\<close> has checked of an envelope it inserted, and what no later update changes:
  the total is positive and in whole cents, and there is at least one share.
\<close>

definition as_created :: "RedEnvelope \<Rightarrow> bool" where
  "as_created e =
     (0 < dval (TotalAmount e) \<and> - 2 \<le> expo (TotalAmount e) \<and> 1 \<le> TotalCount e)"

section \<open>Concrete runs\<close>

text \<open>
  Stores and requests for the worked examples: nine users with a balance of 100.00 each, user 1
  creates an envelope with code \<open>abc\<close> at time 0, users 2, 3, \<open>\<dots>\<close> claim it at time 5.
\<close>

definition scenario_users :: "nat \<rightharpoonup> decimal" where
  "scenario_users = (\<lambda>u. if 1 \<le> u \<and> u \<le> 9 then Some (Decimal 10000 (- 2)) else None)"

definition store0 :: DB where
  "store0 = \<lparr>users = scenario_users, red_envelopes = [], red_envelope_claims = [], orders = [],
             next_id = 1\<rparr>"

definition scenario_request :: "RedEnvelopeType \<Rightarrow> decimal \<Rightarrow> int \<Rightarrow> CreateRequest" where
  "scenario_request ty amt n = \<lparr>ReqType = ty, ReqTotalAmount = amt,
     ReqTotalCount = n, ReqGreeting = ''hello'', ReqPayKey = ''123456''\<rparr>"

definition scenario_envelope ::
  "RedEnvelopeType \<Rightarrow> decimal \<Rightarrow> int \<Rightarrow> decimal \<Rightarrow> int \<Rightarrow> RedEnvelopeStatus \<Rightarrow> RedEnvelope" where
  "scenario_envelope ty amt n remaining k st =
     \<lparr>ID = 1, Code = ''abc'', CreatorID = 1, Type = ty, TotalAmount = amt,
      RemainingAmount = remaining, TotalCount = n, RemainingCount = k, Greeting = ''hello'',
      Status = st, ExpiresAt = hours24\<rparr>"

definition created :: "RedEnvelopeType \<Rightarrow> decimal \<Rightarrow> int \<Rightarrow> DB" where
  "created ty amt n = snd (Create True (\<lambda>k. True) ''abc'' 0 1 (scenario_request ty amt n) store0)"

definition claim_by :: "nat \<Rightarrow> DB \<Rightarrow> DB" where
  "claim_by u db = snd (Claim True 0 ''abc'' u 5 db)"

text \<open>Scenario A: a Fixed envelope of 10.00 for three.\<close>

definition storeA1 :: DB where
  "storeA1 = created RedEnvelopeTypeFixed (Decimal 1000 (- 2)) 3"

definition storeA2 :: DB where
  "storeA2 = claim_by 2 storeA1"

definition storeA3 :: DB where
  "storeA3 = claim_by 3 storeA2"

definition storeA4 :: DB where
  "storeA4 = claim_by 4 storeA3"

text \<open>A Fixed envelope of 0.09 for six: the per-share amount 0.015 rounds up to 0.02.\<close>

definition storeB1 :: DB where
  "storeB1 = created RedEnvelopeTypeFixed (Decimal 9 (- 2)) 6"

definition storeB2 :: DB where
  "storeB2 = claim_by 2 storeB1"

definition storeB3 :: DB where
  "storeB3 = claim_by 3 storeB2"

definition storeB4 :: DB where
  "storeB4 = claim_by 4 storeB3"

definition storeB5 :: DB where
  "storeB5 = claim_by 5 storeB4"

definition storeB6 :: DB where
  "storeB6 = claim_by 6 storeB5"

definition storeB7 :: DB where
  "storeB7 = claim_by 7 storeB6"

text \<open>
  Two sweeper interleavings on scenario A.  A sweeper run at time \<open>hours24 + 1\<close> reads the
  overdue rows while the store is \<open>storeA3\<close>.  In \<open>storeS1\<close> its transaction runs after the
  last claim, which read the clock at its expiry check no later than \<open>hours24\<close>, has committed
  and left \<open>storeA4\<close>; in \<open>storeS2\<close> two sweeper runs that both read the rows from
  \<open>storeA3\<close> run their transactions one after the other.
\<close>

definition overdue_rows :: "RedEnvelope list" where
  "overdue_rows = expired_query (hours24 + 1) storeA3"

definition storeS1 :: DB where
  "storeS1 = refund_each overdue_rows storeA4"

definition storeS2 :: DB where
  "storeS2 = refund_each overdue_rows (refund_each overdue_rows storeA3)"

text \<open>
  Large envelopes: the same nine users with a balance of \<open>10 ^ 17\<close> each.  User 1 creates a
  Fixed envelope of 2999999999999.99 for \<open>2 * 10 ^ 14\<close>, which user 2 claims (\<open>storeW1\<close>,
  \<open>storeW2\<close>), or a Random envelope of \<open>2 ^ 63 + 1\<close> cents for two (\<open>storeU1\<close>).
\<close>

definition wealthy_users :: "nat \<rightharpoonup> decimal" where
  "wealthy_users =
     (\<lambda>u. if 1 \<le> u \<and> u \<le> 9 then Some (Decimal 10000000000000000000 (- 2)) else None)"

definition storeW0 :: DB where
  "storeW0 = \<lparr>users = wealthy_users, red_envelopes = [], red_envelope_claims = [], orders = [],
              next_id = 1\<rparr>"

definition createdW :: "RedEnvelopeType \<Rightarrow> decimal \<Rightarrow> int \<Rightarrow> DB" where
  "createdW ty amt n =
     snd (Create True (\<lambda>k. True) ''abc'' 0 1 (scenario_request ty amt n) storeW0)"



definition storeU1 :: DB where
  "storeU1 = createdW RedEnvelopeTypeRandom (Decimal 9223372036854775809 (- 2)) 2"

section \<open>What the decimal operations compute\<close>

text \<open>
  The operations are exact on the numbers the decimals denote, except for the truncation in
  \<^verbatim>\<open>rescale\<close> to a larger exponent and the rounding steps built on it.
\<close>

named_theorems dsem

lemma pow10_pos: "(0::rat) < 10 powi e"
  by (simp add: zero_less_power_int)

lemma pow10_not_neg [simp]: "\<not> (10::rat) powi e < 0"
  using pow10_pos[of e] by linarith

lemma dval_Decimal: "dval (Decimal c e) = of_int c * 10 powi e"
  by (simp add: dval_def)

lemma dval_rescale_down:
  assumes "e \<le> expo d"
  shows "dval (rescale d e) = dval d"
proof (cases "expo d = e")
  case True
  then show ?thesis by (simp add: rescale_def)
next
  case False
  with assms have lt: "e < expo d" by simp
  have "(10::rat) powi expo d = 10 powi ((expo d - e) + e)"
    by simp
  also have "\<dots> = 10 powi (expo d - e) * 10 powi e"
    by (subst power_int_add) simp_all
  also have "(10::rat) powi (expo d - e) = 10 ^ nat (expo d - e)"
    using lt by (simp add: power_int_def)
  finally have p: "(10::rat) powi expo d = 10 ^ nat (expo d - e) * 10 powi e" .
  have "\<bar>e - expo d\<bar> = expo d - e" using lt by simp
  then show ?thesis
    using lt False by (simp add: rescale_def dval_def Let_def p)
qed

lemma expo_rescale [simp]: "expo (rescale d e) = e"
  by (simp add: rescale_def Let_def)

lemma RescalePair_sem:
  assumes "RescalePair d d2 = (rd, rd2)"
  shows "expo rd = min (expo d) (expo d2)" "expo rd2 = min (expo d) (expo d2)"
    "dval rd = dval d" "dval rd2 = dval d2"
  using assms by (auto simp: RescalePair_def Let_def dval_rescale_down split: if_splits)

lemma dval_same_expo:
  "expo a = expo b \<Longrightarrow> dval a < dval b \<longleftrightarrow> coef a < coef b"
  "expo a = expo b \<Longrightarrow> dval a = dval b \<longleftrightarrow> coef a = coef b"
  using pow10_pos[of "expo b"] by (simp_all add: dval_def)

lemma dval_Add [dsem]: "dval (Add a b) = dval a + dval b"
proof -
  obtain rd rd2 where r: "RescalePair a b = (rd, rd2)" by (cases "RescalePair a b")
  have "dval (Add a b) = of_int (coef rd + coef rd2) * 10 powi (expo rd)"
    by (simp add: Add_def r dval_def)
  also have "\<dots> = dval rd + dval rd2"
    using RescalePair_sem(1,2)[OF r] by (simp add: dval_def algebra_simps)
  finally show ?thesis using RescalePair_sem(3,4)[OF r] by simp
qed


lemma dval_Sub [dsem]: "dval (Sub a b) = dval a - dval b"
proof -
  obtain rd rd2 where r: "RescalePair a b = (rd, rd2)" by (cases "RescalePair a b")
  have "dval (Sub a b) = of_int (coef rd - coef rd2) * 10 powi (expo rd)"
    by (simp add: Sub_def r dval_def)
  also have "\<dots> = dval rd - dval rd2"
    using RescalePair_sem(1,2)[OF r] by (simp add: dval_def algebra_simps)
  finally show ?thesis using RescalePair_sem(3,4)[OF r] by simp
qed


lemma expo_Add [simp]: "expo (Add a b) = min (expo a) (expo b)"
proof -
  obtain rd rd2 where r: "RescalePair a b = (rd, rd2)" by (cases "RescalePair a b")
  show ?thesis using RescalePair_sem(1)[OF r] by (simp add: Add_def r)
qed

lemma expo_Sub [simp]: "expo (Sub a b) = min (expo a) (expo b)"
proof -
  obtain rd rd2 where r: "RescalePair a b = (rd, rd2)" by (cases "RescalePair a b")
  show ?thesis using RescalePair_sem(1)[OF r] by (simp add: Sub_def r)
qed

lemma dval_Mul [dsem]: "dval (Mul a b) = dval a * dval b"
  by (simp add: Mul_def dval_def power_int_add)

lemma Cmp_sem:
  "Cmp a b = (if dval a < dval b then - 1 else if dval a = dval b then 0 else 1)"
proof -
  obtain rd rd2 where r: "RescalePair a b = (rd, rd2)" by (cases "RescalePair a b")
  have e: "expo rd = expo rd2" using RescalePair_sem(1,2)[OF r] by simp
  show ?thesis
    using dval_same_expo[OF e] RescalePair_sem(3,4)[OF r] by (simp add: Cmp_def r)
qed

lemma LessThan_sem [dsem]: "LessThan a b \<longleftrightarrow> dval a < dval b"
  by (simp add: LessThan_def Cmp_sem)

lemma GreaterThan_sem [dsem]: "GreaterThan a b \<longleftrightarrow> dval b < dval a"
  by (auto simp add: GreaterThan_def Cmp_sem)

lemma LessThanOrEqual_sem [dsem]: "LessThanOrEqual a b \<longleftrightarrow> dval a \<le> dval b"
  by (auto simp add: LessThanOrEqual_def Cmp_sem Let_def)

lemma dval_Zero [dsem]: "dval Zero = 0"
  by (simp add: Zero_def dval_def)

lemma dval_NewFromInt [dsem]: "dval (NewFromInt n) = of_int n"
  by (simp add: NewFromInt_def dval_def)

lemma dval_minAmount [dsem]: "dval minAmount = 1 / 100"
  by (simp add: minAmount_def dval_def)

lemma IsPositive_sem [dsem]: "IsPositive a \<longleftrightarrow> 0 < dval a"
proof -
  have "0 < dval a \<longleftrightarrow> 0 < (of_int (coef a) :: rat)"
    unfolding dval_def by (simp add: zero_less_mult_iff)
  then show ?thesis by (simp add: IsPositive_def Sign_def sgn_if)
qed

lemma IsZero_sem [dsem]: "IsZero a \<longleftrightarrow> dval a = 0"
  by (auto simp: IsZero_def Sign_def dval_def sgn_if)


lemma Int64_eq: "Int64 x = signed_take_bit 63 x"
proof -
  have "(if x < 0 then - (word_of_int \<bar>x\<bar> :: 64 word) else word_of_int \<bar>x\<bar>) = word_of_int x"
    by simp
  then show ?thesis
    by (simp add: Int64_def Let_def sint_sbintrunc' del: of_int_abs)
qed

lemma Int64_le: "0 \<le> x \<Longrightarrow> Int64 x \<le> x"
  by (simp add: Int64_eq signed_take_bit_int_less_eq_self_iff)

lemma Int64_id: "0 \<le> x \<Longrightarrow> x < 2 ^ 63 \<Longrightarrow> Int64 x = x"
  by (simp add: Int64_eq signed_take_bit_int_eq_self)

lemma add_int64_eq: "add_int64 a b = signed_take_bit 63 (a + b)"
proof -
  have "(word_of_int a + word_of_int b :: 64 word) = word_of_int (a + b)" by simp
  then show ?thesis
    unfolding add_int64_def by (simp only: sint_sbintrunc') simp
qed

lemma add_int64_id: "0 \<le> a \<Longrightarrow> a + 1 < 2 ^ 63 \<Longrightarrow> add_int64 a 1 = a + 1"
  by (simp add: add_int64_eq signed_take_bit_int_eq_self)

lemma add_int64_pos: "0 \<le> a \<Longrightarrow> 0 < add_int64 a 1 \<Longrightarrow> add_int64 a 1 \<le> a + 1"
  by (simp add: add_int64_eq signed_take_bit_int_less_eq_self_iff)

lemma quo_nonneg: "0 \<le> a \<Longrightarrow> 0 < b \<Longrightarrow> quo a b = a div b"
  by (cases "a = 0") (simp_all add: quo_def)

lemma rescale0_trunc:
  assumes "0 \<le> coef d"
  shows "0 \<le> coef (rescale d 0)" "of_int (coef (rescale d 0)) \<le> dval d"
proof -
  consider "expo d = 0" | "expo d < 0" | "expo d > 0" by linarith
  then have "0 \<le> coef (rescale d 0) \<and> of_int (coef (rescale d 0)) \<le> dval d"
  proof cases
    case 1
    then show ?thesis using assms by (simp add: rescale_def dval_def)
  next
    case 2
    define k where "k = nat (- expo d)"
    have e: "expo d = - int k" using 2 by (simp add: k_def)
    have c: "coef (rescale d 0) = coef d div 10 ^ k"
      using 2 assms by (simp add: rescale_def Let_def k_def quo_nonneg)
    have "(of_int (coef d div 10 ^ k) :: rat) = of_int \<lfloor>(of_int (coef d) :: rat) / of_int (10 ^ k)\<rfloor>"
      by (simp only: floor_divide_of_int_eq)
    also have "\<dots> \<le> of_int (coef d) / of_int (10 ^ k)"
      by (rule of_int_floor_le)
    also have "\<dots> = dval d"
      by (simp add: dval_def e power_int_minus divide_inverse)
    finally have "of_int (coef (rescale d 0)) \<le> dval d" by (simp add: c)
    moreover have "0 \<le> coef (rescale d 0)"
      using assms by (simp add: c pos_imp_zdiv_nonneg_iff)
    ultimately show ?thesis by simp
  next
    case 3
    then have "dval (rescale d 0) = dval d" by (simp add: dval_rescale_down)
    moreover have "0 \<le> coef (rescale d 0)" using 3 assms by (simp add: rescale_def Let_def)
    ultimately show ?thesis by (simp add: dval_def less_imp_le)
  qed
  then show "0 \<le> coef (rescale d 0)" "of_int (coef (rescale d 0)) \<le> dval d" by simp_all
qed


lemma Div_Some: "coef d2 \<noteq> 0 \<Longrightarrow> \<exists>q. Div d d2 = Some q"
  by (simp add: Div_def DivRound_def QuoRem_def Let_def)

lemma Div_None: "coef d2 = 0 \<Longrightarrow> Div d d2 = None"
  by (simp add: Div_def DivRound_def QuoRem_def Let_def)

lemma quo_mult_right: "0 \<le> a \<Longrightarrow> 0 < b \<Longrightarrow> quo (a * b) b = a"
  by (simp add: quo_nonneg)

lemma Div_cents:
  assumes "0 \<le> r"
  shows "Div (NewFromInt r) (NewFromInt 100) = Some (Decimal (r * 10 ^ 14) (- 16))"
proof -
  have "quo (r * 10 ^ 16) 100 = (r * 10 ^ 16) div 100"
    using assms by (intro quo_nonneg) simp_all
  also have "\<dots> = r * 10 ^ 14" by simp
  finally have q: "quo (r * 10 ^ 16) 100 = r * 10 ^ 14" .
  have n: "nat (0 - 0 - - 16) = 16" "(0::int) - 0 - - 16 = 16" by simp_all
  have qr: "QuoRem (NewFromInt r) (NewFromInt 100) 16
      = Some (Decimal (r * 10 ^ 14) (- 16), Decimal 0 (- 16))"
    using q by (simp add: QuoRem_def NewFromInt_def Let_def rem_def)
  show ?thesis
    unfolding Div_def DivisionPrecision_def DivRound_def qr
    by (simp add: Cmp_def RescalePair_def Abs_def NewFromInt_def)
qed

lemma Round_cents:
  assumes "0 \<le> r"
  shows "Round (Add minAmount (Decimal (r * 10 ^ 14) (- 16))) 2 = Decimal (1 + r) (- 2)"
proof -
  have a: "Add minAmount (Decimal (r * 10 ^ 14) (- 16)) = Decimal ((1 + r) * 10 ^ 14) (- 16)"
    by (simp add: Add_def RescalePair_def minAmount_def rescale_def Let_def algebra_simps)
  have "quo ((1 + r) * 10 ^ 14) (10 ^ 13) = ((1 + r) * 10 ^ 14) div (10 ^ 13)"
    using assms by (intro quo_nonneg) simp_all
  also have "\<dots> = (1 + r) * 10" by simp
  finally have "quo ((1 + r) * 10 ^ 14) (10 ^ 13) = (1 + r) * 10" .
  then have r: "rescale (Decimal ((1 + r) * 10 ^ 14) (- 16)) (- 3) = Decimal ((1 + r) * 10) (- 3)"
    by (simp add: rescale_def Let_def)
  have d: "((1 + r) * 10 + 5) div 10 = 1 + r" "((1 + r) * 10 + 5) mod 10 = 5"
    by simp_all
  have m: "- 2 - 1 = (- 3 :: int)" by simp
  have nn: "\<not> (1 + r) * 10 < 0" "\<not> 1 + r < 0" using assms by simp_all
  show ?thesis
    unfolding a Round_def Let_def m r decimal.sel
    by (simp only: nn d if_False simp_thms) simp
qed


lemma share_cents:
  assumes "0 \<le> r"
  shows "(case Div (NewFromInt r) (NewFromInt 100) of
            None \<Rightarrow> None
          | Some randAmount \<Rightarrow> Some (Round (Add minAmount randAmount) 2))
         = Some (Decimal (1 + r) (- 2))"
  by (simp only: Div_cents[OF assms] Round_cents[OF assms] option.case)

lemma calc_main_cents:
  assumes c: "2 \<le> count" and nf: "of_int count / 100 \<le> dval remaining"
  shows "case calculateRandomAmount seed remaining count of
           None \<Rightarrow> 2 ^ 63 \<le> dval remaining * 100
         | Some share \<Rightarrow> 1 / 100 \<le> dval share \<and>
             dval share \<le> dval remaining - of_int (count - 1) / 100 \<and> expo share = - 2"
proof -
  obtain avg where avg: "Div remaining (NewFromInt count) = Some avg"
    using Div_Some[of "NewFromInt count" remaining] c by (auto simp: NewFromInt_def)
  define maxPossible where "maxPossible = Sub remaining (Mul minAmount (NewFromInt (count - 1)))"
  define maxAmount0 where "maxAmount0 = Mul avg (NewFromInt 2)"
  define maxAmount1 where
    "maxAmount1 = (if GreaterThan maxAmount0 maxPossible then maxPossible else maxAmount0)"
  define maxAmount where
    "maxAmount = (if LessThan maxAmount1 minAmount then minAmount else maxAmount1)"
  define diff where "diff = Sub maxAmount minAmount"
  define diffCents where "diffCents = IntPart (Mul diff (NewFromInt 100))"
  have nlt: "\<not> LessThan remaining (Mul minAmount (NewFromInt count))"
    using nf by (simp add: dsem)
  have eq: "calculateRandomAmount seed remaining count =
      (if LessThanOrEqual diff Zero then Some minAmount
       else if diffCents \<le> 0 then Some minAmount
       else case Int63n seed (add_int64 diffCents 1) of
              None \<Rightarrow> None
            | Some randCents \<Rightarrow>
                (case Div (NewFromInt randCents) (NewFromInt 100) of
                   None \<Rightarrow> None
                 | Some randAmount \<Rightarrow> Some (Round (Add minAmount randAmount) 2)))"
    unfolding calculateRandomAmount_def Let_def diffCents_def diff_def maxAmount_def
      maxAmount1_def maxAmount0_def maxPossible_def
    using c nlt avg by simp
  have mp: "dval maxPossible = dval remaining - of_int (count - 1) / 100"
    by (simp add: maxPossible_def dsem)
  have mp_ge: "1 / 100 \<le> dval maxPossible"
    using nf by (simp add: mp field_simps)
  have m1: "dval maxAmount1 \<le> dval maxPossible"
    by (simp add: maxAmount1_def dsem)
  have ma: "1 / 100 \<le> dval maxAmount" "dval maxAmount \<le> dval maxPossible"
    using m1 mp_ge by (auto simp: maxAmount_def dsem)
  have d: "dval diff = dval maxAmount - 1 / 100"
    by (simp add: diff_def dsem)
  show ?thesis
  proof (cases "LessThanOrEqual diff Zero \<or> diffCents \<le> 0")
    case True
    then have "calculateRandomAmount seed remaining count = Some minAmount"
      by (auto simp: eq)
    moreover have "expo minAmount = - 2" by (simp add: minAmount_def)
    ultimately show ?thesis using mp_ge by (simp add: mp dsem)
  next
    case False
    then have pos: "0 < dval diff" "0 < diffCents" by (simp_all add: dsem)
    define D where "D = Mul diff (NewFromInt 100)"
    have D: "dval D = dval diff * 100" by (simp add: D_def dsem)
    have cD: "0 \<le> coef D"
      using pos(1) by (simp add: D_def Mul_def NewFromInt_def dval_def zero_less_mult_iff)
    define T where "T = coef (rescale D 0)"
    have T: "0 \<le> T" "of_int T \<le> dval D"
      using rescale0_trunc[OF cD] by (simp_all add: T_def)
    have dc: "diffCents = Int64 T"
      by (simp add: diffCents_def IntPart_def T_def D_def)
    have dcT: "diffCents \<le> T" using Int64_le[OF T(1)] by (simp add: dc)
    have Tb: "of_int T \<le> dval remaining * 100 - of_int count"
    proof -
      have "of_int T \<le> (dval maxPossible - 1 / 100) * 100"
        using T(2) ma(2) by (simp add: D d)
      also have "\<dots> = dval remaining * 100 - of_int count"
        by (simp add: mp field_simps)
      finally show ?thesis .
    qed
    show ?thesis
    proof (cases "Int63n seed (add_int64 diffCents 1)")
      case None
      then have n0: "add_int64 diffCents 1 \<le> 0"
        by (simp add: Int63n_def split: if_splits)
      have "\<not> dval remaining * 100 < 2 ^ 63"
      proof
        assume lt: "dval remaining * 100 < 2 ^ 63"
        have "(of_int T :: rat) < of_int (2 ^ 63 - 2)"
          using Tb lt c by (simp add: field_simps) 
        then have Tlt: "T < 2 ^ 63 - 2" by (simp only: of_int_less_iff)
        then have "diffCents = T" using T(1) by (simp add: dc Int64_id)
        then have "add_int64 diffCents 1 = T + 1"
          using T(1) Tlt by (simp add: add_int64_id)
        with n0 T(1) show False by simp
      qed
      then show ?thesis using None pos False by (simp add: eq)
    next
      case (Some r)
      then have n: "0 < add_int64 diffCents 1" and r: "r = seed mod add_int64 diffCents 1"
        by (auto simp: Int63n_def split: if_splits)
      have r0: "0 \<le> r" using n by (simp add: r)
      have "r < add_int64 diffCents 1" using n by (simp add: r)
      also have "\<dots> \<le> diffCents + 1"
        using add_int64_pos[of diffCents] pos(2) n by simp
      finally have rle: "r \<le> T" using dcT by simp
      have res: "calculateRandomAmount seed remaining count = Some (Decimal (1 + r) (- 2))"
        using False Some by (simp add: eq share_cents[OF r0])
      have "(of_int r :: rat) \<le> of_int T" using rle by simp
      then have "of_int r \<le> dval remaining * 100 - of_int count" using Tb by simp
      then have "dval (Decimal (1 + r) (- 2)) \<le> dval remaining - of_int (count - 1) / 100"
        by (simp add: dval_def field_simps)
      moreover have "1 / 100 \<le> dval (Decimal (1 + r) (- 2))"
        using r0 by (simp add: dval_def field_simps)
      ultimately show ?thesis by (simp add: res)
    qed
  qed
qed

lemma calc_main:
  assumes c: "2 \<le> count" and nf: "of_int count / 100 \<le> dval remaining"
  shows "case calculateRandomAmount seed remaining count of
           None \<Rightarrow> 2 ^ 63 \<le> dval remaining * 100
         | Some share \<Rightarrow> 1 / 100 \<le> dval share \<and>
             dval share \<le> dval remaining - of_int (count - 1) / 100"
  using calc_main_cents[OF assms, of seed]
  by (cases "calculateRandomAmount seed remaining count") simp_all

text \<open>The definitions that evaluate the decimal operations on concrete numbers.\<close>

lemmas decimal_eval =
  Div_def DivRound_def QuoRem_def Round_def rescale_def RescalePair_def Cmp_def Abs_def
  NewFromInt_def quo_def rem_def DivisionPrecision_def Add_def Sub_def Mul_def Let_def
  minAmount_def LessThan_def GreaterThan_def LessThanOrEqual_def Zero_def IntPart_def Int64_def
  Int63n_def add_int64_def Sign_def IsPositive_def IsZero_def Exponent_def


lemmas handler_eval = Create_def Create_checks_def Create_tx_def ShouldBindJSON_def
  Claim_def Claim_tx_def claimedAmount_of_def credit_def hours24_def

lemmas scenario_eval = created_def claim_by_def store0_def scenario_request_def
  scenario_envelope_def scenario_users_def

section \<open>Facts about the handlers\<close>

lemma expo_ge_cents:
  assumes "- 2 \<le> expo d"
  shows "dval d * 100 \<in> \<int>"
proof -
  have "dval d * 100 = of_int (coef d) * (10 powi expo d * 10 powi 2)"
    by (simp add: dval_def)
  also have "10 powi expo d * 10 powi 2 = (10::rat) powi (expo d + 2)"
    by (subst power_int_add) simp_all
  also have "\<dots> = 10 ^ nat (expo d + 2)"
    using assms by (simp add: power_int_def)
  finally show ?thesis by simp
qed

lemma calc_returns:
  assumes "1 \<le> count" and "dval remaining * 100 < 2 ^ 63"
  shows "\<exists>share. calculateRandomAmount seed remaining count = Some share"
proof -
  consider "count = 1" | "2 \<le> count" "dval remaining < of_int count / 100"
    | "2 \<le> count" "of_int count / 100 \<le> dval remaining"
    using assms(1) by linarith
  then show ?thesis
  proof cases
    case 1
    then show ?thesis by (simp add: calculateRandomAmount_def)
  next
    case 2
    obtain q where "Div remaining (NewFromInt count) = Some q"
      using Div_Some[of "NewFromInt count" remaining] 2(1) by (auto simp: NewFromInt_def)
    then show ?thesis
      using 2 by (simp add: calculateRandomAmount_def Let_def dsem)
  next
    case 3
    then show ?thesis
      using calc_main[OF 3, of seed] assms(2)
      by (cases "calculateRandomAmount seed remaining count") simp_all
  qed
qed

lemma claimedAmount_of_returns:
  assumes "1 \<le> TotalCount e" "1 \<le> RemainingCount e"
    and "Type e = RedEnvelopeTypeFixed \<or> dval (RemainingAmount e) * 100 < 2 ^ 63"
  shows "\<exists>a. claimedAmount_of seed e = Some a"
proof (cases "Type e = RedEnvelopeTypeFixed")
  case True
  obtain q where "Div (TotalAmount e) (NewFromInt (TotalCount e)) = Some q"
    using Div_Some[of "NewFromInt (TotalCount e)" "TotalAmount e"] assms(1)
    by (auto simp: NewFromInt_def)
  then show ?thesis using True by (simp add: claimedAmount_of_def)
next
  case False
  then have "dval (RemainingAmount e) * 100 < 2 ^ 63" using assms(3) by simp
  then show ?thesis
    using calc_returns[OF assms(2), of "RemainingAmount e" seed] False
    by (simp add: claimedAmount_of_def)
qed

lemma Claim_proceeds:
  assumes "code \<noteq> []" and "find (\<lambda>e. Code e = code) (red_envelopes db) = Some e"
    and "Status e \<noteq> RedEnvelopeStatusExpired" "\<not> ExpiresAt e < now"
    and "Status e \<noteq> RedEnvelopeStatusFinished" "0 < RemainingCount e"
    and "\<not> list_ex (\<lambda>c. RedEnvelopeID c = ID e \<and> UserID c = u) (red_envelope_claims db)"
    and "claimedAmount_of seed e = Some a"
  shows "\<exists>e' db'. Claim True seed code u now db = (Inr (a, e'), db')"
  using assms by (simp add: Claim_def Claim_tx_def Let_def)

subsection \<open>Division and rounding of non-negative amounts\<close>

lemma round_div_int:
  fixes a b :: int
  assumes "0 < b"
  shows "(2 * a + b) div (2 * b) = a div b + (if 2 * (a mod b) < b then 0 else 1)"
proof -
  define q where "q = a div b"
  define r where "r = a mod b"
  have a: "a = b * q + r" by (simp add: q_def r_def)
  have r: "0 \<le> r" "r < b" using assms by (simp_all add: r_def)
  show ?thesis
  proof (cases "2 * r < b")
    case True
    have "2 * a + b = (2 * b) * q + (2 * r + b)" by (simp add: a algebra_simps)
    moreover have "0 \<le> 2 * r + b" "2 * r + b < 2 * b" using r True by simp_all
    ultimately have "(2 * a + b) div (2 * b) = q" by (rule int_div_pos_eq)
    then show ?thesis using True by (simp add: q_def r_def)
  next
    case False
    have "2 * a + b = (2 * b) * (q + 1) + (2 * r - b)" by (simp add: a algebra_simps)
    moreover have "0 \<le> 2 * r - b" "2 * r - b < 2 * b" using r False by simp_all
    ultimately have "(2 * a + b) div (2 * b) = q + 1" by (rule int_div_pos_eq)
    then show ?thesis using False by (simp add: q_def r_def)
  qed
qed

lemma floor_half_up:
  fixes a b :: int
  assumes "0 < b"
  shows "\<lfloor>(of_int a :: rat) / of_int b + 1 / 2\<rfloor> = (2 * a + b) div (2 * b)"
proof -
  have "(of_int a :: rat) / of_int b + 1 / 2 = of_int (2 * a + b) / of_int (2 * b)"
    using assms by (simp add: field_simps)
  then show ?thesis by (simp only: floor_divide_of_int_eq)
qed

lemma rem_nonneg: "0 \<le> a \<Longrightarrow> 0 < b \<Longrightarrow> rem a b = a mod b"
  by (simp add: rem_def quo_nonneg minus_mult_div_eq_mod)

lemma Div_nonneg_int:
  assumes a: "0 \<le> coef a" and n: "0 < n"
  shows "Div a (NewFromInt n) = Some (Decimal \<lfloor>dval a / of_int n * 10 ^ 16 + 1 / 2\<rfloor> (- 16))"
proof -
  define e where "e = expo a + 16"
  define aa where "aa = (if e < 0 then coef a else coef a * 10 ^ nat e)"
  define bb where "bb = (if e < 0 then n * 10 ^ nat (- e) else n)"
  have aa: "0 \<le> aa" using a by (simp add: aa_def)
  have bb: "0 < bb" using n by (simp add: bb_def)
  have qr: "QuoRem a (NewFromInt n) 16 =
      Some (Decimal (aa div bb) (- 16), Decimal (aa mod bb) (if e < 0 then expo a else - 16))"
  proof (cases "e < 0")
    case True
    then have ab: "aa = coef a" "bb = n * 10 ^ nat (- e)" by (simp_all add: aa_def bb_def)
    have "expo a - 0 - - 16 = e" by (simp add: e_def)
    then show ?thesis
      using n True quo_nonneg[OF aa bb] rem_nonneg[OF aa bb]
      by (simp add: QuoRem_def NewFromInt_def Let_def ab)
  next
    case False
    then have ab: "aa = coef a * 10 ^ nat e" "bb = n" by (simp_all add: aa_def bb_def)
    have "expo a - 0 - - 16 = e" by (simp add: e_def)
    then show ?thesis
      using n False quo_nonneg[OF aa bb] rem_nonneg[OF aa bb]
      by (simp add: QuoRem_def NewFromInt_def Let_def ab)
  qed
  have r: "0 \<le> aa mod bb" "aa mod bb < bb" using bb by simp_all
  have ratio: "dval a / of_int n * 10 ^ 16 = (of_int aa :: rat) / of_int bb"
  proof -
    have p: "(10::rat) powi (expo a) * 10 ^ 16 = 10 powi e"
    proof -
      have "(10::rat) powi e = 10 powi (expo a) * 10 powi 16"
        unfolding e_def by (subst power_int_add) simp_all
      then show ?thesis by simp
    qed
    have "dval a / of_int n * 10 ^ 16 = of_int (coef a) * (10 powi (expo a) * 10 ^ 16) / of_int n"
      by (simp add: dval_def)
    also have "\<dots> = of_int (coef a) * 10 powi e / of_int n" by (simp only: p)
    also have "\<dots> = (of_int aa :: rat) / of_int bb"
    proof (cases "e < 0")
      case True
      then have "(10::rat) powi e = 1 / 10 ^ nat (- e)"
        by (simp add: power_int_def field_simps)
      then show ?thesis using True by (simp add: aa_def bb_def)
    next
      case False
      then have "(10::rat) powi e = 10 ^ nat e" by (simp add: power_int_def)
      then show ?thesis using False by (simp add: aa_def bb_def)
    qed
    finally show ?thesis .
  qed
  have cmp: "Cmp (Decimal (\<bar>aa mod bb\<bar> * 2) ((if e < 0 then expo a else - 16) + 16))
      (Abs (NewFromInt n)) < 0 \<longleftrightarrow> 2 * (aa mod bb) < bb"
  proof -
    have d2: "dval (Abs (NewFromInt n)) = of_int n"
      using n by (simp add: Abs_def NewFromInt_def dval_def)
    have "dval (Decimal (\<bar>aa mod bb\<bar> * 2) ((if e < 0 then expo a else - 16) + 16)) < of_int n
        \<longleftrightarrow> 2 * (aa mod bb) < bb"
    proof (cases "e < 0")
      case True
      then have pe: "(10::rat) powi e = 1 / 10 ^ nat (- e)"
        by (simp add: power_int_def field_simps)
      have "dval (Decimal (\<bar>aa mod bb\<bar> * 2) (expo a + 16)) = of_int (2 * (aa mod bb)) / 10 ^ nat (- e)"
        using r(1) pe by (simp add: dval_def e_def)
      also have "\<dots> < of_int n \<longleftrightarrow> (of_int (2 * (aa mod bb)) :: rat) < of_int (n * 10 ^ nat (- e))"
        by (simp add: field_simps)
      also have "\<dots> \<longleftrightarrow> 2 * (aa mod bb) < n * 10 ^ nat (- e)"
        by (simp only: of_int_less_iff)
      finally show ?thesis using True by (simp add: bb_def)
    next
      case False
      have "dval (Decimal (\<bar>aa mod bb\<bar> * 2) 0) = of_int (2 * (aa mod bb))"
        using r(1) by (simp add: dval_def)
      also have "(of_int (2 * (aa mod bb)) :: rat) < of_int n \<longleftrightarrow> 2 * (aa mod bb) < n"
        by (simp only: of_int_less_iff)
      finally show ?thesis using False by (simp add: bb_def)
    qed
    then show ?thesis by (simp add: Cmp_sem d2)
  qed
  have sg: "\<not> sgn (coef a) * sgn (coef (NewFromInt n)) < 0"
    using a n by (simp add: NewFromInt_def sgn_if)
  have "Div a (NewFromInt n) =
      Some (Decimal (aa div bb + (if 2 * (aa mod bb) < bb then 0 else 1)) (- 16))"
    unfolding Div_def DivisionPrecision_def DivRound_def qr
    using cmp sg by (simp add: Let_def Add_def RescalePair_def)
  also have "aa div bb + (if 2 * (aa mod bb) < bb then 0 else 1) = \<lfloor>(of_int aa :: rat) / of_int bb + 1 / 2\<rfloor>"
    by (simp only: floor_half_up[OF bb] round_div_int[OF bb])
  finally show ?thesis by (simp only: ratio)
qed


lemma floor_int_half: "\<lfloor>(of_int z :: rat) + 1 / 2\<rfloor> = z"
  by (rule floor_unique) simp_all

lemma Round2_nonneg:
  assumes c: "0 \<le> coef d"
  shows "Round d 2 = Decimal \<lfloor>dval d * 100 + 1 / 2\<rfloor> (- 2)"
proof -
  consider "expo d = - 2" | "- 1 \<le> expo d" | "expo d \<le> - 3" by linarith
  then show ?thesis
  proof cases
    case 1
    have "dval d * 100 = of_int (coef d)"
      by (simp add: dval_def 1 power_int_minus)
    then have "\<lfloor>dval d * 100 + 1 / 2\<rfloor> = coef d" by (simp only: floor_int_half)
    moreover have "Round d 2 = Decimal (coef d) (- 2)"
      using 1 by (cases d) (simp add: Round_def)
    ultimately show ?thesis by simp
  next
    case 2
    define k where "k = nat (expo d + 2)"
    have e: "expo d = int k - 2" using 2 by (simp add: k_def)
    have "(10::rat) powi (expo d) * 100 = 10 powi (expo d) * 10 powi 2" by simp
    also have "\<dots> = 10 powi (expo d + 2)" by (subst power_int_add) simp_all
    also have "\<dots> = 10 ^ k" by (simp add: e)
    finally have p: "(10::rat) powi (expo d) * 100 = 10 ^ k" .
    have "dval d * 100 = of_int (coef d) * (10 powi (expo d) * 100)" by (simp add: dval_def)
    then have v: "dval d * 100 = of_int (coef d * 10 ^ k)" by (simp add: p)
    have fl: "\<lfloor>dval d * 100 + 1 / 2\<rfloor> = coef d * 10 ^ k"
      unfolding v by (rule floor_int_half)
    have n3: "nat (expo d + 3) = Suc k" using 2 by (simp add: k_def)
    have ret: "rescale d (- 2 - 1) = Decimal (coef d * 10 ^ Suc k) (- 3)"
      using 2 by (simp add: rescale_def Let_def n3 del: power_Suc)
    have nn: "\<not> coef d * 10 ^ Suc k < 0" using c by (simp add: zero_le_mult_iff not_less)
    have dv: "(coef d * 10 ^ Suc k + 5) div 10 = coef d * 10 ^ k"
    proof -
      have "coef d * 10 ^ Suc k + 5 = 10 * (coef d * 10 ^ k) + 5" by simp
      moreover have "(0::int) \<le> 5" "(5::int) < 10" by simp_all
      ultimately show ?thesis by (rule int_div_pos_eq)
    qed
    have q0: "\<not> coef d * 10 ^ k < 0" using c by (simp add: zero_le_mult_iff not_less)
    have "Round d 2 = Decimal (coef d * 10 ^ k) (- 2)"
      unfolding Round_def Let_def ret decimal.sel
      using 2 nn q0 by (simp only: dv if_False simp_thms) simp
    then show ?thesis by (simp only: fl)
  next
    case 3
    define k where "k = nat (- 3 - expo d)"
    have e: "expo d = - 3 - int k" using 3 by (simp add: k_def)
    have pk: "(0::int) < 10 ^ k" by simp
    have ret: "rescale d (- 2 - 1) = Decimal (coef d div 10 ^ k) (- 3)"
    proof (cases "k = 0")
      case True
      then have "expo d = - 3" using e by simp
      then show ?thesis using True by (cases d) (simp add: rescale_def)
    next
      case False
      then have lt: "expo d < - 3" using e by simp
      then have "\<bar>- 2 - 1 - expo d\<bar> = int k" by (simp add: k_def)
      then show ?thesis
        using lt quo_nonneg[OF c pk] by (simp add: rescale_def Let_def)
    qed
    have c': "0 \<le> coef d div 10 ^ k" using c by (simp add: pos_imp_zdiv_nonneg_iff)
    have q0: "\<not> (coef d div 10 ^ k + 5) div 10 < 0"
      using c' by (simp add: not_less pos_imp_zdiv_nonneg_iff)
    have r: "Round d 2 = Decimal ((coef d div 10 ^ k + 5) div 10) (- 2)"
      unfolding Round_def Let_def ret decimal.sel
      using 3 c' q0 by simp
    have "(coef d div 10 ^ k + 5) div 10 = ((coef d + 5 * 10 ^ k) div 10 ^ k) div 10"
      by simp
    also have "\<dots> = (coef d + 5 * 10 ^ k) div (10 ^ k * 10)"
      by (rule zdiv_zmult2_eq[symmetric]) simp
    also have "\<dots> = (2 * (coef d + 5 * 10 ^ k)) div (2 * (10 ^ k * 10))"
      by (rule div_mult_mult1 [symmetric]) simp
    also have "2 * (coef d + 5 * 10 ^ k) = 2 * coef d + 10 ^ Suc k" by simp
    also have "2 * (10 ^ k * 10) = 2 * (10::int) ^ Suc k" by simp
    finally have dv: "(coef d div 10 ^ k + 5) div 10 = (2 * coef d + 10 ^ Suc k) div (2 * 10 ^ Suc k)" .
    have "(10::rat) powi (expo d) * 100 = 10 powi (expo d) * 10 powi 2" by simp
    also have "\<dots> = 10 powi (expo d + 2)" by (subst power_int_add) simp_all
    also have "expo d + 2 = - int (Suc k)" by (simp add: e)
    also have "(10::rat) powi (- int (Suc k)) = 1 / 10 ^ Suc k"
      by (simp only: power_int_minus power_int_of_nat divide_inverse mult_1)
    finally have p: "(10::rat) powi (expo d) * 100 = 1 / 10 ^ Suc k" .
    have "dval d * 100 = of_int (coef d) * (10 powi (expo d) * 100)" by (simp add: dval_def)
    then have v: "dval d * 100 = of_int (coef d) / of_int (10 ^ Suc k)"
      by (simp only: p) simp
    have "\<lfloor>dval d * 100 + 1 / 2\<rfloor> = (2 * coef d + 10 ^ Suc k) div (2 * 10 ^ Suc k)"
      unfolding v by (rule floor_half_up) simp
    then show ?thesis by (simp only: r dv)
  qed
qed

lemma pow10_not_le0 [simp]: "\<not> (10::rat) powi e \<le> 0"
  using pow10_pos[of e] by linarith

lemma coef_nonneg_iff: "0 \<le> coef d \<longleftrightarrow> 0 \<le> dval d"
  by (simp add: dval_def zero_le_mult_iff)

lemma Round2_ge_min:
  assumes "1 / 100 \<le> dval d"
  shows "1 / 100 \<le> dval (Round d 2)"
proof -
  have c: "0 \<le> coef d" using assms by (simp add: coef_nonneg_iff)
  have "(1::rat) \<le> dval d * 100" using assms by simp
  then have "of_int 1 \<le> dval d * 100 + 1 / 2" by simp
  then have "1 \<le> \<lfloor>dval d * 100 + 1 / 2\<rfloor>" by (simp only: le_floor_iff)
  then have "(1::rat) \<le> of_int \<lfloor>dval d * 100 + 1 / 2\<rfloor>" by linarith
  then show ?thesis
    by (simp add: Round2_nonneg[OF c] dval_def)
qed

text \<open>The even-split branch: with less than 0.01 per head the rounded share is 0.00 or 0.01.\<close>

lemma even_split_share:
  assumes n: "2 \<le> n" and pos: "0 \<le> dval remaining" and lt: "dval remaining < of_int n / 100"
  shows "\<exists>s. map_option (\<lambda>q. Round q 2) (Div remaining (NewFromInt n)) = Some (Decimal s (- 2)) \<and>
           (s = 0 \<or> s = 1)"
proof -
  define y where "y = \<lfloor>dval remaining / of_int n * 10 ^ 16 + 1 / 2\<rfloor>"
  have c: "0 \<le> coef remaining" using pos by (simp add: coef_nonneg_iff)
  have d: "Div remaining (NewFromInt n) = Some (Decimal y (- 16))"
    unfolding y_def using c n by (intro Div_nonneg_int) simp_all
  have x: "0 \<le> dval remaining / of_int n" "dval remaining / of_int n < 1 / 100"
    using n pos lt by (simp_all add: field_simps)
  have y0: "0 \<le> y"
    unfolding y_def using x(1) by (simp add: zero_le_floor)
  have "dval remaining / of_int n * 10 ^ 16 + 1 / 2 < of_int (10 ^ 14 + 1)"
    using x(2) by simp
  then have "y < 10 ^ 14 + 1" unfolding y_def by (simp only: floor_less_iff)
  then have y1: "y \<le> 10 ^ 14" by simp
  define s where "s = \<lfloor>dval (Decimal y (- 16)) * 100 + 1 / 2\<rfloor>"
  have r: "Round (Decimal y (- 16)) 2 = Decimal s (- 2)"
    unfolding s_def using y0 by (intro Round2_nonneg) simp
  have v: "dval (Decimal y (- 16)) * 100 = of_int y / 10 ^ 14"
    by (simp add: dval_def power_int_minus field_simps)
  have "(of_int y :: rat) \<le> of_int (10 ^ 14)" using y1 by (simp only: of_int_le_iff)
  then have v1: "dval (Decimal y (- 16)) * 100 \<le> 1" by (simp add: v)
  have v0: "0 \<le> dval (Decimal y (- 16)) * 100" using y0 by (simp add: v)
  have "0 \<le> s" unfolding s_def using v0 by (simp add: zero_le_floor)
  moreover have "s < 2"
  proof -
    have "dval (Decimal y (- 16)) * 100 + 1 / 2 < of_int 2" using v1 by simp
    then show ?thesis unfolding s_def by (simp only: floor_less_iff)
  qed
  ultimately have "s = 0 \<or> s = 1" by linarith
  then show ?thesis by (auto simp: d r)
qed

lemma cents_pos_ge:
  assumes "- 2 \<le> expo d" and "0 < dval d"
  shows "1 / 100 \<le> dval d"
proof -
  obtain z :: int where z: "dval d * 100 = of_int z"
    using expo_ge_cents[OF assms(1)] by (auto elim: Ints_cases)
  have "(0::rat) < of_int z" using assms(2) z by (simp add: zero_less_mult_iff)
  then have "1 \<le> z" by simp
  then have "(1::rat) \<le> of_int z" by linarith
  then show ?thesis using z by simp
qed



text \<open>
  For an amount in whole cents and fewer than \<open>2 * 10 ^ 14\<close> shares, the 16-place quotient is
  below 0.01 exactly when the exact quotient is.
\<close>

lemma Div_below_min:
  assumes c: "0 \<le> dval t" and e: "- 2 \<le> expo t" and n: "1 \<le> n" "n < 2 * 10 ^ 14"
  shows "\<exists>per. Div t (NewFromInt n) = Some per \<and>
           (dval per < 1 / 100 \<longleftrightarrow> dval t / of_int n < 1 / 100)"
proof -
  obtain T :: int where T: "dval t * 100 = of_int T"
    using expo_ge_cents[OF e] by (auto elim: Ints_cases)
  define y where "y = \<lfloor>dval t / of_int n * 10 ^ 16 + 1 / 2\<rfloor>"
  define X :: rat where "X = of_int T / of_int n"
  have n0: "(0::rat) < of_int n" using n by simp
  have ct: "0 \<le> coef t" using c by (simp add: coef_nonneg_iff)
  have d: "Div t (NewFromInt n) = Some (Decimal y (- 16))"
    unfolding y_def using ct n by (intro Div_nonneg_int) simp_all
  have dt: "dval t = of_int T / 100" using T by simp
  have q: "dval t / of_int n = X / 100"
    unfolding dt X_def by simp
  have "X / 100 * 10 ^ 16 = X * 10 ^ 14" by simp
  then have yX: "y = \<lfloor>X * 10 ^ 14 + 1 / 2\<rfloor>"
    unfolding y_def q by (simp only:)
  have v: "dval (Decimal y (- 16)) < 1 / 100 \<longleftrightarrow> y < 10 ^ 14"
  proof -
    have dy: "dval (Decimal y (- 16)) = of_int y / 10 ^ 16"
      by (simp add: dval_def power_int_minus field_simps)
    have "dval (Decimal y (- 16)) < 1 / 100 \<longleftrightarrow> (of_int y :: rat) < of_int (10 ^ 14)"
      unfolding dy by simp
    then show ?thesis by (simp only: of_int_less_iff)
  qed
  have yX1: "y < 10 ^ 14 \<longleftrightarrow> X < 1"
  proof
    assume "y < 10 ^ 14"
    then have "X * 10 ^ 14 + 1 / 2 < of_int (10 ^ 14)"
      unfolding yX by (simp only: floor_less_iff)
    then show "X < 1" by simp
  next
    assume "X < 1"
    then have "(of_int T :: rat) < of_int n" using n0 by (simp add: X_def field_simps)
    then have "T < n" by (simp only: of_int_less_iff)
    then have "T \<le> n - 1" by simp
    then have "(of_int T :: rat) \<le> of_int (n - 1)" by (simp only: of_int_le_iff)
    then have X1: "X \<le> 1 - 1 / of_int n" using n0 by (simp add: X_def field_simps)
    have small: "(1::rat) / (2 * 10 ^ 14) < 1 / of_int n"
    proof -
      have "(of_int n :: rat) < of_int (2 * 10 ^ 14)" using n(2) by (simp only: of_int_less_iff)
      then show ?thesis using n0 by (simp add: field_simps)
    qed
    have "X * 10 ^ 14 + 1 / 2 \<le> (1 - 1 / of_int n) * 10 ^ 14 + 1 / 2"
      using X1 by simp
    also have "\<dots> = 10 ^ 14 + (1 / 2 - (1 / of_int n) * 10 ^ 14)"
      by (simp add: algebra_simps)
    also have "\<dots> < 10 ^ 14" using small by simp
    also have "\<dots> = of_int (10 ^ 14)" by simp
    finally show "y < 10 ^ 14" unfolding yX by (simp only: floor_less_iff)
  qed
  have qX: "dval t / of_int n < 1 / 100 \<longleftrightarrow> X < 1"
    unfolding q by simp
  have "dval (Decimal y (- 16)) < 1 / 100 \<longleftrightarrow> dval t / of_int n < 1 / 100"
    by (simp only: v yX1 qX)
  then show ?thesis by (intro exI[of _ "Decimal y (- 16)"] conjI d)
qed


lemma Div_below_min_iff:
  assumes c: "0 \<le> dval t" and n: "1 \<le> n"
  shows "\<exists>per. Div t (NewFromInt n) = Some per \<and>
           (dval per < 1 / 100 \<longleftrightarrow> dval t / of_int n < 1 / 100 - 1 / (2 * 10 ^ 16))"
proof -
  define X where "X = dval t / of_int n"
  define y where "y = \<lfloor>X * 10 ^ 16 + 1 / 2\<rfloor>"
  have ct: "0 \<le> coef t" using c by (simp add: coef_nonneg_iff)
  have d: "Div t (NewFromInt n) = Some (Decimal y (- 16))"
    unfolding y_def X_def using ct n by (intro Div_nonneg_int) simp_all
  have dy: "dval (Decimal y (- 16)) = of_int y / 10 ^ 16"
    by (simp add: dval_def power_int_minus field_simps)
  have "dval (Decimal y (- 16)) < 1 / 100 \<longleftrightarrow> (of_int y :: rat) < of_int (10 ^ 14)"
    unfolding dy by simp
  also have "\<dots> \<longleftrightarrow> y < 10 ^ 14" by (simp only: of_int_less_iff)
  also have "\<dots> \<longleftrightarrow> X * 10 ^ 16 + 1 / 2 < of_int (10 ^ 14)"
    unfolding y_def by (simp only: floor_less_iff)
  also have "\<dots> \<longleftrightarrow> X < 1 / 100 - 1 / (2 * 10 ^ 16)"
    by auto
  finally have "dval (Decimal y (- 16)) < 1 / 100
      \<longleftrightarrow> dval t / of_int n < 1 / 100 - 1 / (2 * 10 ^ 16)"
    unfolding X_def .
  then show ?thesis by (intro exI[of _ "Decimal y (- 16)"] conjI d)
qed

subsection \<open>The handlers' transactions\<close>



text \<open>What a successful claim transaction leaves behind.\<close>

lemma Claim_tx_Inr:
  assumes "Claim_tx seed code u now db = Inr (a, e', db')"
  obtains e where "find (\<lambda>e. Code e = code) (red_envelopes db) = Some e"
    and "Status e \<noteq> RedEnvelopeStatusExpired" "\<not> ExpiresAt e < now"
    and "Status e \<noteq> RedEnvelopeStatusFinished" "0 < RemainingCount e"
    and "\<not> list_ex (\<lambda>c. RedEnvelopeID c = ID e \<and> UserID c = u) (red_envelope_claims db)"
    and "claimedAmount_of seed e = Some a"
    and "e' = e\<lparr>RemainingCount := RemainingCount e - 1,
                 RemainingAmount := Sub (RemainingAmount e) a,
                 Status := (if RemainingCount e - 1 \<le> 0 then RedEnvelopeStatusFinished
                            else Status e)\<rparr>"
    and "red_envelopes db' = map (\<lambda>x. if ID x = ID e then
            x\<lparr>RemainingCount := RemainingCount e - 1,
              RemainingAmount := Sub (RemainingAmount e) a,
              Status := (if RemainingCount e - 1 \<le> 0 then RedEnvelopeStatusFinished
                         else Status e)\<rparr> else x) (red_envelopes db)"
    and "red_envelope_claims db' = red_envelope_claims db @
            [\<lparr>RedEnvelopeID = ID e, UserID = u, Amount = a\<rparr>]"
    and "users db' = credit u a (users db)"
  using assms
  by (auto simp: Claim_tx_def Let_def split: option.splits if_splits)

lemma Claim_Inr:
  "Claim enabled seed code u now db = (Inr (a, e'), db') \<longleftrightarrow>
     enabled \<and> code \<noteq> [] \<and> Claim_tx seed code u now db = Inr (a, e', db')"
  by (auto simp: Claim_def split: sum.splits)

lemma Claim_Inl:
  "Claim enabled seed code u now db = (Inl err, db') \<Longrightarrow> db' = db"
  by (auto simp: Claim_def split: sum.splits if_splits)


lemma Claim_passes:
  assumes "code \<noteq> []" and "find (\<lambda>e. Code e = code) (red_envelopes db) = Some e"
    and "Status e = RedEnvelopeStatusActive" "now \<le> ExpiresAt e" "0 < RemainingCount e"
    and "\<not> list_ex (\<lambda>c. RedEnvelopeID c = ID e \<and> UserID c = u) (red_envelope_claims db)"
  shows "Claim True seed code u now db =
     (case claimedAmount_of seed e of
        None \<Rightarrow> (Inl InternalError, db)
      | Some a \<Rightarrow>
          (Inr (a, e\<lparr>RemainingCount := RemainingCount e - 1,
                     RemainingAmount := Sub (RemainingAmount e) a,
                     Status := (if RemainingCount e - 1 \<le> 0 then RedEnvelopeStatusFinished
                                else Status e)\<rparr>),
           db\<lparr>users := credit u a (users db),
              red_envelopes := map (\<lambda>x. if ID x = ID e then
                  x\<lparr>RemainingCount := RemainingCount e - 1,
                    RemainingAmount := Sub (RemainingAmount e) a,
                    Status := (if RemainingCount e - 1 \<le> 0 then RedEnvelopeStatusFinished
                               else Status e)\<rparr> else x) (red_envelopes db),
              red_envelope_claims := red_envelope_claims db @
                  [\<lparr>RedEnvelopeID = ID e, UserID = u, Amount = a\<rparr>],
              orders := orders db @
                  [\<lparr>PayerUserID = CreatorID e, PayeeUserID = u, OrderAmount = a,
                    OrderKind = OrderTypeRedEnvelopeReceive\<rparr>]\<rparr>))"
  using assms by (simp add: Claim_def Claim_tx_def Let_def split: option.split)


lemma Create_envelopes:
  assumes "Create enabled V code now u req db = (r, db')"
  shows "db' = db \<or> (\<exists>e. red_envelopes db' = red_envelopes db @ [e] \<and>
           Status e = RedEnvelopeStatusActive \<and> red_envelope_claims db' = red_envelope_claims db)"
  using assms
  by (auto simp: Create_def Create_tx_def Let_def split: option.splits sum.splits if_splits)

lemma Claim_envelopes:
  assumes "Claim enabled seed code u now db = (r, db')"
  shows "db' = db \<or> (\<exists>a e' e. r = Inr (a, e') \<and> Claim_tx seed code u now db = Inr (a, e', db'))"
  using assms by (auto simp: Claim_def split: sum.splits if_splits)

lemma refund_tx_envelopes:
  "red_envelopes (refund_tx envelope db) =
     map (\<lambda>e. if ID e = ID envelope \<and> Status e = RedEnvelopeStatusActive
               then e\<lparr>Status := RedEnvelopeStatusExpired,
                      RemainingAmount := NewFromInt 0, RemainingCount := 0\<rparr>
               else e) (red_envelopes db)"
  "red_envelope_claims (refund_tx envelope db) = red_envelope_claims db"
  by (simp_all add: refund_tx_def Let_def)

subsection \<open>A claim row stays\<close>










subsection \<open>Finished envelopes are empty\<close>

lemma finished_empty_Create:
  assumes "list_all finished_empty (red_envelopes db)"
    and "Create enabled V code now u req db = (r, db')"
  shows "list_all finished_empty (red_envelopes db')"
  using Create_envelopes[OF assms(2)] assms(1)
  by (auto simp: finished_empty_def)

lemma claimedAmount_of_last:
  "RemainingCount e = 1 \<Longrightarrow> claimedAmount_of seed e = Some (RemainingAmount e)"
  by (simp add: claimedAmount_of_def calculateRandomAmount_def)

lemma IsZero_Sub_self: "IsZero (Sub d d)"
  by (simp add: dsem)

lemma list_all_map_if:
  assumes "list_all P xs" and "\<And>x. P (f x)"
  shows "list_all P (map (\<lambda>x. if c x then f x else x) xs)"
  using assms(1) by (induction xs) (simp_all add: assms(2))

lemma finished_empty_Claim:
  assumes "list_all finished_empty (red_envelopes db)"
    and "Claim enabled seed code u now db = (r, db')"
  shows "list_all finished_empty (red_envelopes db')"
proof -
  from Claim_envelopes[OF assms(2)] show ?thesis
  proof
    assume "db' = db" then show ?thesis using assms(1) by simp
  next
    assume "\<exists>a e' e. r = Inr (a, e') \<and> Claim_tx seed code u now db = Inr (a, e', db')"
    then obtain a e' where tx: "Claim_tx seed code u now db = Inr (a, e', db')" by blast
    from tx show ?thesis
    proof (rule Claim_tx_Inr)
      fix e
      assume envs: "red_envelopes db' = map (\<lambda>x. if ID x = ID e then
            x\<lparr>RemainingCount := RemainingCount e - 1,
              RemainingAmount := Sub (RemainingAmount e) a,
              Status := (if RemainingCount e - 1 \<le> 0 then RedEnvelopeStatusFinished
                         else Status e)\<rparr> else x) (red_envelopes db)"
        and nf: "Status e \<noteq> RedEnvelopeStatusFinished" and pos: "0 < RemainingCount e"
        and a: "claimedAmount_of seed e = Some a"
      have upd: "finished_empty (x\<lparr>RemainingCount := RemainingCount e - 1,
              RemainingAmount := Sub (RemainingAmount e) a,
              Status := (if RemainingCount e - 1 \<le> 0 then RedEnvelopeStatusFinished
                         else Status e)\<rparr>)" for x
      proof (cases "RemainingCount e - 1 \<le> 0")
        case True
        then have one: "RemainingCount e = 1" using pos by simp
        then have "a = RemainingAmount e" using a claimedAmount_of_last[of e seed] by simp
        then show ?thesis using one by (simp add: finished_empty_def IsZero_Sub_self)
      next
        case False
        then show ?thesis using nf by (simp add: finished_empty_def)
      qed
      show ?thesis
        unfolding envs using assms(1) upd by (rule list_all_map_if)
    qed
  qed
qed

lemma finished_empty_refund_tx:
  assumes "list_all finished_empty (red_envelopes db)"
  shows "list_all finished_empty (red_envelopes (refund_tx envelope db))"
  using assms by (auto simp: refund_tx_envelopes list_all_iff finished_empty_def)

lemma finished_empty_refund_each:
  "list_all finished_empty (red_envelopes db) \<Longrightarrow>
   list_all finished_empty (red_envelopes (refund_each envs db))"
  by (induction envs arbitrary: db) (simp_all add: finished_empty_refund_tx)

lemma finished_empty_sweep:
  "list_all finished_empty (red_envelopes db) \<Longrightarrow>
   list_all finished_empty (red_envelopes (refundExpiredRedEnvelopes now db))"
  by (simp add: refundExpiredRedEnvelopes_def Let_def finished_empty_refund_each)

lemma reachable_finished_empty:
  "reachable db \<Longrightarrow> list_all finished_empty (red_envelopes db)"
  by (induction rule: reachable.induct)
    (auto intro: finished_empty_Create finished_empty_Claim finished_empty_sweep
      finished_empty_refund_tx)

subsection \<open>A sweep that finds nothing, and a second sweep\<close>

lemma sweep_all_expired:
  assumes "\<And>e. e \<in> set (red_envelopes db) \<Longrightarrow> ExpiresAt e < now \<Longrightarrow>
    Status e = RedEnvelopeStatusExpired"
  shows "refundExpiredRedEnvelopes now db = db"
proof -
  have "expired_query now db = []"
    using assms by (auto simp: expired_query_def filter_empty_conv)
  then show ?thesis by (simp add: refundExpiredRedEnvelopes_def)
qed

lemma refund_each_envelopes:
  "red_envelopes (refund_each rows db) =
     map (\<lambda>e. if ID e \<in> ID ` set rows \<and> Status e = RedEnvelopeStatusActive
               then e\<lparr>Status := RedEnvelopeStatusExpired,
                      RemainingAmount := NewFromInt 0, RemainingCount := 0\<rparr>
               else e) (red_envelopes db)"
proof (induction rows arbitrary: db)
  case Nil
  then show ?case by (simp add: map_idI)
next
  case (Cons r rows)
  show ?case
    unfolding refund_each.simps Cons.IH refund_tx_envelopes(1) map_map
    by (rule map_cong) auto
qed

lemma sweep_twice:
  "refundExpiredRedEnvelopes now (refundExpiredRedEnvelopes now db)
     = refundExpiredRedEnvelopes now db"
proof (cases "expired_query now db = []")
  case True
  then show ?thesis by (simp add: refundExpiredRedEnvelopes_def)
next
  case False
  let ?rows = "expired_query now db"
  have first: "refundExpiredRedEnvelopes now db = refund_each ?rows db"
    using False by (simp add: refundExpiredRedEnvelopes_def)
  have "expired_query now (refund_each ?rows db) = []"
    unfolding expired_query_def[of now "refund_each ?rows db"] refund_each_envelopes
    by (auto simp: filter_empty_conv expired_query_def)
  then show ?thesis
    unfolding first by (simp add: refundExpiredRedEnvelopes_def)
qed

subsection \<open>Random envelopes never pay more than they hold\<close>

lemma list_all_mapI:
  assumes "\<And>x. x \<in> set xs \<Longrightarrow> P (f x)"
  shows "list_all P (map f xs)"
  using assms by (simp add: list_all_iff)

lemma random_share_within:
  assumes p: "0 \<le> dval remaining" and e: "- 2 \<le> expo remaining" and n: "1 \<le> count"
    and r: "calculateRandomAmount seed remaining count = Some share"
  shows "0 \<le> dval share \<and> dval share \<le> dval remaining \<and> - 2 \<le> expo share"
proof -
  consider "count = 1" | "2 \<le> count" "dval remaining < of_int count / 100"
    | "2 \<le> count" "of_int count / 100 \<le> dval remaining"
    using n by linarith
  then show ?thesis
  proof cases
    case 1
    then show ?thesis using r p e by (simp add: calculateRandomAmount_def)
  next
    case 2
    obtain s where s: "map_option (\<lambda>q. Round q 2) (Div remaining (NewFromInt count))
        = Some (Decimal s (- 2))" "s = 0 \<or> s = 1"
      using even_split_share[OF 2(1) p 2(2)] by blast
    have sh: "share = Decimal s (- 2)"
      using r 2 s(1) by (simp add: calculateRandomAmount_def Let_def dsem)
    show ?thesis
    proof (cases "s = 0")
      case True
      then show ?thesis using p by (simp add: sh dval_def)
    next
      case False
      then have s1: "s = 1" using s(2) by simp
      have "dval remaining \<noteq> 0"
      proof
        assume z: "dval remaining = 0"
        then have "coef remaining = 0" by (simp add: dval_def)
        moreover have "\<lfloor>(1::rat) / 2\<rfloor> = 0" by (rule floor_unique) simp_all
        ultimately have "Div remaining (NewFromInt count) = Some (Decimal 0 (- 16))"
          using Div_nonneg_int[of remaining count] 2(1) z by simp
        moreover have "\<lfloor>(1::rat) / 2\<rfloor> = 0" by (rule floor_unique) simp_all
        ultimately have "map_option (\<lambda>q. Round q 2) (Div remaining (NewFromInt count))
            = Some (Decimal 0 (- 2))"
          using Round2_nonneg[of "Decimal 0 (- 16)"] by (simp add: dval_def)
        with s(1) s1 show False by simp
      qed
      then have "0 < dval remaining" using p by simp
      then have "1 / 100 \<le> dval remaining" using cents_pos_ge[OF e] by simp
      then show ?thesis by (simp add: sh s1 dval_def)
    qed
  next
    case 3
    have nn: "(0::rat) \<le> of_int (count - 1) / 100" using 3(1) by simp
    have b: "1 / 100 \<le> dval share"
      "dval share \<le> dval remaining - of_int (count - 1) / 100" and x: "expo share = - 2"
      using calc_main_cents[OF 3, of seed] r by simp_all
    have "0 \<le> dval share \<and> dval share \<le> dval remaining" using b nn by linarith
    then show ?thesis using x by simp
  qed
qed

lemma Create_Inr:
  assumes "Create enabled V code now u req db = (Inr r, db')"
  shows "\<exists>e. red_envelopes db' = red_envelopes db @ [e] \<and> ID e = next_id db \<and>
           next_id db' = Suc (next_id db) \<and> RemainingAmount e = TotalAmount e \<and>
           0 < dval (TotalAmount e) \<and> - 2 \<le> expo (TotalAmount e)"
  using assms
  by (auto simp: Create_def Create_tx_def Create_checks_def Let_def dsem Exponent_def
      split: option.splits sum.splits if_splits)

lemma find_Some_set: "find P xs = Some x \<Longrightarrow> x \<in> set xs"
  by (induction xs) (auto split: if_splits)

lemma well_kept_Create:
  assumes "well_kept db" and "Create enabled V code now u req db = (Inr r, db')"
  shows "well_kept db'"
proof -
  obtain e where e: "red_envelopes db' = red_envelopes db @ [e]" "ID e = next_id db"
    "next_id db' = Suc (next_id db)" "RemainingAmount e = TotalAmount e"
    "0 < dval (TotalAmount e)" "- 2 \<le> expo (TotalAmount e)"
    using Create_Inr[OF assms(2)] by blast
  have "ID e \<notin> set (map ID (red_envelopes db))"
    using assms(1) e(2) by (auto simp: well_kept_def list_all_iff)
  moreover have "random_within e" using e(4,5,6) by (simp add: random_within_def)
  ultimately show ?thesis
    using assms(1) e(1,2,3) by (auto simp: well_kept_def list_all_iff)
qed

lemma well_kept_Claim_tx:
  assumes wk: "well_kept db" and tx: "Claim_tx seed code u now db = Inr (a, e', db')"
  shows "well_kept db'"
proof -
  have nid: "next_id db' = next_id db"
    using tx by (auto simp: Claim_tx_def Let_def split: option.splits if_splits)
  from tx show ?thesis
  proof (rule Claim_tx_Inr)
    fix e
    assume f: "find (\<lambda>e. Code e = code) (red_envelopes db) = Some e"
      and pos: "0 < RemainingCount e"
      and a: "claimedAmount_of seed e = Some a"
      and envs: "red_envelopes db' = map (\<lambda>x. if ID x = ID e then
            x\<lparr>RemainingCount := RemainingCount e - 1,
              RemainingAmount := Sub (RemainingAmount e) a,
              Status := (if RemainingCount e - 1 \<le> 0 then RedEnvelopeStatusFinished
                         else Status e)\<rparr> else x) (red_envelopes db)"
    let ?f = "\<lambda>x. if ID x = ID e then
            x\<lparr>RemainingCount := RemainingCount e - 1,
              RemainingAmount := Sub (RemainingAmount e) a,
              Status := (if RemainingCount e - 1 \<le> 0 then RedEnvelopeStatusFinished
                         else Status e)\<rparr> else x"
    have mem: "e \<in> set (red_envelopes db)" using f by (rule find_Some_set)
    have ids: "map ID (map ?f (red_envelopes db)) = map ID (red_envelopes db)"
      by (induction "red_envelopes db") auto
    have all: "ID (?f x) < next_id db \<and> random_within (?f x)" if x: "x \<in> set (red_envelopes db)" for x
    proof (cases "ID x = ID e")
      case False
      then show ?thesis using wk x by (simp add: well_kept_def list_all_iff)
    next
      case True
      have "inj_on ID (set (red_envelopes db))"
        using wk by (simp add: well_kept_def distinct_map)
      then have xe: "x = e" using True x mem by (auto dest: inj_onD)
      have we: "ID e < next_id db" "random_within e"
        using wk mem by (simp_all add: well_kept_def list_all_iff)
      have "random_within (?f e)"
      proof (cases "Type e = RedEnvelopeTypeRandom")
        case False
        then show ?thesis by (simp add: random_within_def)
      next
        case True
        then have r: "0 \<le> dval (RemainingAmount e)" "dval (RemainingAmount e) \<le> dval (TotalAmount e)"
          "- 2 \<le> expo (RemainingAmount e)"
          using we(2) by (simp_all add: random_within_def)
        have "calculateRandomAmount seed (RemainingAmount e) (RemainingCount e) = Some a"
          using a True by (simp add: claimedAmount_of_def)
        then have "0 \<le> dval a \<and> dval a \<le> dval (RemainingAmount e) \<and> - 2 \<le> expo a"
          using r pos by (intro random_share_within) simp_all
        then show ?thesis using r by (simp add: random_within_def dsem)
      qed
      then show ?thesis using we(1) xe by simp
    qed
    have "distinct (map ID (red_envelopes db'))"
      unfolding envs ids using wk by (simp add: well_kept_def)
    moreover have "list_all (\<lambda>e. ID e < next_id db' \<and> random_within e) (red_envelopes db')"
      unfolding envs nid by (rule list_all_mapI) (rule all)
    ultimately show ?thesis by (simp add: well_kept_def)
  qed
qed

lemma well_kept_refund_tx:
  assumes wk: "well_kept db"
  shows "well_kept (refund_tx envelope db)"
proof -
  let ?f = "\<lambda>e. if ID e = ID envelope \<and> Status e = RedEnvelopeStatusActive
               then e\<lparr>Status := RedEnvelopeStatusExpired,
                      RemainingAmount := NewFromInt 0, RemainingCount := 0\<rparr>
               else e"
  have nid: "next_id (refund_tx envelope db) = next_id db"
    by (simp add: refund_tx_def Let_def)
  have ids: "map ID (map ?f (red_envelopes db)) = map ID (red_envelopes db)"
    by (induction "red_envelopes db") auto
  have all: "ID (?f x) < next_id db \<and> random_within (?f x)" if "x \<in> set (red_envelopes db)" for x
  proof -
    have w: "ID x < next_id db" "random_within x"
      using wk that by (simp_all add: well_kept_def list_all_iff)
    have "random_within (x\<lparr>Status := RedEnvelopeStatusExpired,
        RemainingAmount := NewFromInt 0, RemainingCount := 0\<rparr>)"
      using w(2) by (auto simp: random_within_def NewFromInt_def dval_def split: if_splits)
    then show ?thesis using w by simp
  qed
  have "distinct (map ID (red_envelopes (refund_tx envelope db)))"
    unfolding refund_tx_envelopes ids using wk by (simp add: well_kept_def)
  moreover have "list_all (\<lambda>e. ID e < next_id (refund_tx envelope db) \<and> random_within e)
      (red_envelopes (refund_tx envelope db))"
    unfolding refund_tx_envelopes nid by (rule list_all_mapI) (rule all)
  ultimately show ?thesis by (simp add: well_kept_def)
qed

lemma well_kept_refund_each:
  "well_kept db \<Longrightarrow> well_kept (refund_each envs db)"
  by (induction envs arbitrary: db) (simp_all add: well_kept_refund_tx)

lemma reachable_well_kept: "reachable db \<Longrightarrow> well_kept db"
proof (induction rule: reachable.induct)
  case (at_start us n)
  then show ?case by (simp add: well_kept_def)
next
  case (by_Create db enabled VerifyPayKey code now currentUser req r db')
  then show ?case by (auto intro: well_kept_Create)
next
  case (by_Claim db enabled seed code currentUser now r db')
  obtain a e' where "r = (a, e')" by (cases r)
  then have "Claim_tx seed code currentUser now db = Inr (a, e', db')"
    using by_Claim.hyps(2) by (simp add: Claim_Inr)
  then show ?case using by_Claim.IH by (rule well_kept_Claim_tx[rotated])
next
  case (by_sweep db now)
  then show ?case
    by (simp add: refundExpiredRedEnvelopes_def Let_def well_kept_refund_each)
next
  case (by_refund_tx db0 envelope now db)
  then show ?case by (simp add: well_kept_refund_tx)
qed

lemma reachable_random_within:
  assumes "reachable db" and "e \<in> set (red_envelopes db)" and "Type e = RedEnvelopeTypeRandom"
  shows "0 \<le> dval (RemainingAmount e) \<and> dval (RemainingAmount e) \<le> dval (TotalAmount e)"
  using reachable_well_kept[OF assms(1)] assms(2,3)
  by (auto simp: well_kept_def list_all_iff random_within_def)

lemma Claim_conserves:
  assumes "Claim enabled seed code u now db = (Inr (a, e'), db')"
  shows "\<exists>e. find (\<lambda>e. Code e = code) (red_envelopes db) = Some e \<and>
     dval (RemainingAmount e') = dval (RemainingAmount e) - dval a \<and>
     RemainingCount e' = RemainingCount e - 1 \<and>
     red_envelope_claims db' = red_envelope_claims db @
       [\<lparr>RedEnvelopeID = ID e, UserID = u, Amount = a\<rparr>]"
proof -
  from assms have "Claim_tx seed code u now db = Inr (a, e', db')" by (simp add: Claim_Inr)
  then show ?thesis by (rule Claim_tx_Inr) (simp add: dsem)
qed

subsection \<open>Envelopes keep what \<^verbatim>\<open>Create\<close> checked\<close>

lemma as_created_Create:
  assumes "list_all as_created (red_envelopes db)"
    and "Create enabled V code now u req db = (r, db')"
  shows "list_all as_created (red_envelopes db')"
  using assms
  by (auto simp: Create_def Create_tx_def Create_checks_def ShouldBindJSON_def Let_def dsem
      Exponent_def as_created_def split: option.splits sum.splits if_splits)

lemma as_created_Claim:
  assumes "list_all as_created (red_envelopes db)"
    and "Claim enabled seed code u now db = (r, db')"
  shows "list_all as_created (red_envelopes db')"
proof -
  from Claim_envelopes[OF assms(2)] show ?thesis
  proof
    assume "db' = db" then show ?thesis using assms(1) by simp
  next
    assume "\<exists>a e' e. r = Inr (a, e') \<and> Claim_tx seed code u now db = Inr (a, e', db')"
    then obtain a e' where tx: "Claim_tx seed code u now db = Inr (a, e', db')" by blast
    from tx show ?thesis
    proof (rule Claim_tx_Inr)
      fix e
      assume envs: "red_envelopes db' = map (\<lambda>x. if ID x = ID e then
            x\<lparr>RemainingCount := RemainingCount e - 1,
              RemainingAmount := Sub (RemainingAmount e) a,
              Status := (if RemainingCount e - 1 \<le> 0 then RedEnvelopeStatusFinished
                         else Status e)\<rparr> else x) (red_envelopes db)"
      show ?thesis
        unfolding envs using assms(1) by (auto simp: list_all_iff as_created_def)
    qed
  qed
qed

lemma as_created_refund_tx:
  assumes "list_all as_created (red_envelopes db)"
  shows "list_all as_created (red_envelopes (refund_tx envelope db))"
  using assms by (auto simp: refund_tx_envelopes list_all_iff as_created_def)

lemma as_created_refund_each:
  "list_all as_created (red_envelopes db) \<Longrightarrow>
   list_all as_created (red_envelopes (refund_each envs db))"
  by (induction envs arbitrary: db) (simp_all add: as_created_refund_tx)

lemma reachable_as_created:
  "reachable db \<Longrightarrow> list_all as_created (red_envelopes db)"
proof (induction rule: reachable.induct)
  case (by_sweep db now)
  then show ?case
    by (simp add: refundExpiredRedEnvelopes_def Let_def as_created_refund_each)
qed (auto intro: as_created_Create as_created_Claim as_created_refund_tx)

lemma found_as_created:
  assumes "reachable db" and "find (\<lambda>e. Code e = code) (red_envelopes db) = Some e"
  shows "0 < dval (TotalAmount e)" "- 2 \<le> expo (TotalAmount e)" "1 \<le> TotalCount e"
  using reachable_as_created[OF assms(1)] find_Some_set[OF assms(2)]
  by (simp_all add: list_all_iff as_created_def)

section \<open>The concrete runs, evaluated\<close>

lemma storeA1:
  "Create True (\<lambda>k. True) ''abc'' 0 1 (scenario_request RedEnvelopeTypeFixed (Decimal 1000 (- 2)) 3) store0
     = (Inr (1, ''abc''), storeA1)"
  "red_envelopes storeA1 = [scenario_envelope RedEnvelopeTypeFixed (Decimal 1000 (- 2)) 3
     (Decimal 1000 (- 2)) 3 RedEnvelopeStatusActive]"
  "red_envelope_claims storeA1 = []"
  "users storeA1 = scenario_users(1 \<mapsto> Decimal 9000 (- 2))"
  by (simp_all add: storeA1_def handler_eval scenario_eval decimal_eval)

lemma storeA2:
  "Claim True 0 ''abc'' 2 5 storeA1 = (Inr (Decimal 333 (- 2),
     scenario_envelope RedEnvelopeTypeFixed (Decimal 1000 (- 2)) 3 (Decimal 667 (- 2)) 2
       RedEnvelopeStatusActive), storeA2)"
  "red_envelopes storeA2 = [scenario_envelope RedEnvelopeTypeFixed (Decimal 1000 (- 2)) 3
     (Decimal 667 (- 2)) 2 RedEnvelopeStatusActive]"
  "red_envelope_claims storeA2 = [\<lparr>RedEnvelopeID = 1, UserID = 2, Amount = Decimal 333 (- 2)\<rparr>]"
  "users storeA2 = (users storeA1)(2 \<mapsto> Decimal 10333 (- 2))"
  by (simp_all add: storeA2_def storeA1(2-) handler_eval scenario_eval decimal_eval)

lemma storeA3:
  "Claim True 0 ''abc'' 3 5 storeA2 = (Inr (Decimal 333 (- 2),
     scenario_envelope RedEnvelopeTypeFixed (Decimal 1000 (- 2)) 3 (Decimal 334 (- 2)) 1
       RedEnvelopeStatusActive), storeA3)"
  "red_envelopes storeA3 = [scenario_envelope RedEnvelopeTypeFixed (Decimal 1000 (- 2)) 3
     (Decimal 334 (- 2)) 1 RedEnvelopeStatusActive]"
  "red_envelope_claims storeA3 = [\<lparr>RedEnvelopeID = 1, UserID = 2, Amount = Decimal 333 (- 2)\<rparr>,
     \<lparr>RedEnvelopeID = 1, UserID = 3, Amount = Decimal 333 (- 2)\<rparr>]"
  "users storeA3 = (users storeA2)(3 \<mapsto> Decimal 10333 (- 2))"
  by (simp_all add: storeA3_def storeA2(2-) storeA1(2-) handler_eval scenario_eval decimal_eval)

lemma storeA4:
  "Claim True 0 ''abc'' 4 5 storeA3 = (Inr (Decimal 334 (- 2),
     scenario_envelope RedEnvelopeTypeFixed (Decimal 1000 (- 2)) 3 (Decimal 0 (- 2)) 0
       RedEnvelopeStatusFinished), storeA4)"
  "red_envelopes storeA4 = [scenario_envelope RedEnvelopeTypeFixed (Decimal 1000 (- 2)) 3
     (Decimal 0 (- 2)) 0 RedEnvelopeStatusFinished]"
  "red_envelope_claims storeA4 = [\<lparr>RedEnvelopeID = 1, UserID = 2, Amount = Decimal 333 (- 2)\<rparr>,
     \<lparr>RedEnvelopeID = 1, UserID = 3, Amount = Decimal 333 (- 2)\<rparr>,
     \<lparr>RedEnvelopeID = 1, UserID = 4, Amount = Decimal 334 (- 2)\<rparr>]"
  "users storeA4 = (users storeA3)(4 \<mapsto> Decimal 10334 (- 2))"
  by (simp_all add: storeA4_def storeA3(2-) storeA2(2-) storeA1(2-) handler_eval scenario_eval
      decimal_eval)

lemma storeB1:
  "Create True (\<lambda>k. True) ''abc'' 0 1 (scenario_request RedEnvelopeTypeFixed (Decimal 9 (- 2)) 6) store0
     = (Inr (1, ''abc''), storeB1)"
  "red_envelopes storeB1 = [scenario_envelope RedEnvelopeTypeFixed (Decimal 9 (- 2)) 6 (Decimal 9 (- 2)) 6 RedEnvelopeStatusActive]"
  "red_envelope_claims storeB1 = []"
  "users storeB1 = scenario_users(1 \<mapsto> Decimal 9991 (- 2))"
  by (simp_all add: storeB1_def handler_eval scenario_eval decimal_eval)

lemma storeB2:
  "Claim True 0 ''abc'' 2 5 storeB1 = (Inr (Decimal 2 (- 2),
     scenario_envelope RedEnvelopeTypeFixed (Decimal 9 (- 2)) 6 (Decimal 7 (- 2)) 5 RedEnvelopeStatusActive), storeB2)"
  "red_envelopes storeB2 = [scenario_envelope RedEnvelopeTypeFixed (Decimal 9 (- 2)) 6 (Decimal 7 (- 2)) 5 RedEnvelopeStatusActive]"
  "red_envelope_claims storeB2 = [\<lparr>RedEnvelopeID = 1, UserID = 2, Amount = Decimal 2 (- 2)\<rparr>]"
  "users storeB2 = (users storeB1)(2 \<mapsto> Decimal 10002 (- 2))"
  by (simp_all add: storeB2_def storeB1(2-) handler_eval scenario_eval decimal_eval)

lemma storeB3:
  "Claim True 0 ''abc'' 3 5 storeB2 = (Inr (Decimal 2 (- 2),
     scenario_envelope RedEnvelopeTypeFixed (Decimal 9 (- 2)) 6 (Decimal 5 (- 2)) 4 RedEnvelopeStatusActive), storeB3)"
  "red_envelopes storeB3 = [scenario_envelope RedEnvelopeTypeFixed (Decimal 9 (- 2)) 6 (Decimal 5 (- 2)) 4 RedEnvelopeStatusActive]"
  "red_envelope_claims storeB3 = [\<lparr>RedEnvelopeID = 1, UserID = 2, Amount = Decimal 2 (- 2)\<rparr>,
     \<lparr>RedEnvelopeID = 1, UserID = 3, Amount = Decimal 2 (- 2)\<rparr>]"
  "users storeB3 = (users storeB2)(3 \<mapsto> Decimal 10002 (- 2))"
  by (simp_all add: storeB3_def storeB2(2-) storeB1(2-) handler_eval scenario_eval decimal_eval)

lemma storeB4:
  "Claim True 0 ''abc'' 4 5 storeB3 = (Inr (Decimal 2 (- 2),
     scenario_envelope RedEnvelopeTypeFixed (Decimal 9 (- 2)) 6 (Decimal 3 (- 2)) 3 RedEnvelopeStatusActive), storeB4)"
  "red_envelopes storeB4 = [scenario_envelope RedEnvelopeTypeFixed (Decimal 9 (- 2)) 6 (Decimal 3 (- 2)) 3 RedEnvelopeStatusActive]"
  "red_envelope_claims storeB4 = [\<lparr>RedEnvelopeID = 1, UserID = 2, Amount = Decimal 2 (- 2)\<rparr>,
     \<lparr>RedEnvelopeID = 1, UserID = 3, Amount = Decimal 2 (- 2)\<rparr>,
     \<lparr>RedEnvelopeID = 1, UserID = 4, Amount = Decimal 2 (- 2)\<rparr>]"
  "users storeB4 = (users storeB3)(4 \<mapsto> Decimal 10002 (- 2))"
  by (simp_all add: storeB4_def storeB3(2-) storeB2(2-) storeB1(2-) handler_eval scenario_eval decimal_eval)

lemma storeB5:
  "Claim True 0 ''abc'' 5 5 storeB4 = (Inr (Decimal 2 (- 2),
     scenario_envelope RedEnvelopeTypeFixed (Decimal 9 (- 2)) 6 (Decimal 1 (- 2)) 2 RedEnvelopeStatusActive), storeB5)"
  "red_envelopes storeB5 = [scenario_envelope RedEnvelopeTypeFixed (Decimal 9 (- 2)) 6 (Decimal 1 (- 2)) 2 RedEnvelopeStatusActive]"
  "red_envelope_claims storeB5 = [\<lparr>RedEnvelopeID = 1, UserID = 2, Amount = Decimal 2 (- 2)\<rparr>,
     \<lparr>RedEnvelopeID = 1, UserID = 3, Amount = Decimal 2 (- 2)\<rparr>,
     \<lparr>RedEnvelopeID = 1, UserID = 4, Amount = Decimal 2 (- 2)\<rparr>,
     \<lparr>RedEnvelopeID = 1, UserID = 5, Amount = Decimal 2 (- 2)\<rparr>]"
  "users storeB5 = (users storeB4)(5 \<mapsto> Decimal 10002 (- 2))"
  by (simp_all add: storeB5_def storeB4(2-) storeB3(2-) storeB2(2-) storeB1(2-) handler_eval scenario_eval decimal_eval)

lemma storeB6:
  "Claim True 0 ''abc'' 6 5 storeB5 = (Inr (Decimal 2 (- 2),
     scenario_envelope RedEnvelopeTypeFixed (Decimal 9 (- 2)) 6 (Decimal (- 1) (- 2)) 1 RedEnvelopeStatusActive), storeB6)"
  "red_envelopes storeB6 = [scenario_envelope RedEnvelopeTypeFixed (Decimal 9 (- 2)) 6 (Decimal (- 1) (- 2)) 1 RedEnvelopeStatusActive]"
  "red_envelope_claims storeB6 = [\<lparr>RedEnvelopeID = 1, UserID = 2, Amount = Decimal 2 (- 2)\<rparr>,
     \<lparr>RedEnvelopeID = 1, UserID = 3, Amount = Decimal 2 (- 2)\<rparr>,
     \<lparr>RedEnvelopeID = 1, UserID = 4, Amount = Decimal 2 (- 2)\<rparr>,
     \<lparr>RedEnvelopeID = 1, UserID = 5, Amount = Decimal 2 (- 2)\<rparr>,
     \<lparr>RedEnvelopeID = 1, UserID = 6, Amount = Decimal 2 (- 2)\<rparr>]"
  "users storeB6 = (users storeB5)(6 \<mapsto> Decimal 10002 (- 2))"
  by (simp_all add: storeB6_def storeB5(2-) storeB4(2-) storeB3(2-) storeB2(2-) storeB1(2-) handler_eval scenario_eval decimal_eval)

lemma storeB7:
  "Claim True 0 ''abc'' 7 5 storeB6 = (Inr (Decimal (- 1) (- 2),
     scenario_envelope RedEnvelopeTypeFixed (Decimal 9 (- 2)) 6 (Decimal 0 (- 2)) 0 RedEnvelopeStatusFinished), storeB7)"
  "red_envelopes storeB7 = [scenario_envelope RedEnvelopeTypeFixed (Decimal 9 (- 2)) 6 (Decimal 0 (- 2)) 0 RedEnvelopeStatusFinished]"
  "red_envelope_claims storeB7 = [\<lparr>RedEnvelopeID = 1, UserID = 2, Amount = Decimal 2 (- 2)\<rparr>,
     \<lparr>RedEnvelopeID = 1, UserID = 3, Amount = Decimal 2 (- 2)\<rparr>,
     \<lparr>RedEnvelopeID = 1, UserID = 4, Amount = Decimal 2 (- 2)\<rparr>,
     \<lparr>RedEnvelopeID = 1, UserID = 5, Amount = Decimal 2 (- 2)\<rparr>,
     \<lparr>RedEnvelopeID = 1, UserID = 6, Amount = Decimal 2 (- 2)\<rparr>,
     \<lparr>RedEnvelopeID = 1, UserID = 7, Amount = Decimal (- 1) (- 2)\<rparr>]"
  "users storeB7 = (users storeB6)(7 \<mapsto> Decimal 9999 (- 2))"
  by (simp_all add: storeB7_def storeB6(2-) storeB5(2-) storeB4(2-) storeB3(2-) storeB2(2-) storeB1(2-) handler_eval scenario_eval decimal_eval)

lemma storeA_users:
  "users storeA3 1 = Some (Decimal 9000 (- 2))"
  "users storeA4 1 = Some (Decimal 9000 (- 2))"
  by (simp_all add: storeA4(4) storeA3(4) storeA2(4) storeA1(4))

lemma last_second_claim:
  "Claim True 0 ''abc'' 4 hours24 storeA3 = Claim True 0 ''abc'' 4 5 storeA3"
  by (simp add: Claim_def Claim_tx_def storeA3(2) scenario_envelope_def hours24_def)

lemma overdue_rows:
  "overdue_rows = [scenario_envelope RedEnvelopeTypeFixed (Decimal 1000 (- 2)) 3
     (Decimal 334 (- 2)) 1 RedEnvelopeStatusActive]"
  by (simp add: overdue_rows_def expired_query_def storeA3(2) scenario_envelope_def hours24_def
      IsPositive_def Sign_def)

lemma storeS1:
  "red_envelopes storeS1 = red_envelopes storeA4"
  "users storeS1 1 = Some (Decimal 9334 (- 2))"
  "orders storeS1 = orders storeA4 @
     [\<lparr>PayerUserID = 1, PayeeUserID = 1, OrderAmount = Decimal 334 (- 2),
       OrderKind = OrderTypeLiteral ''red_envelope_refund''\<rparr>]"
  by (simp_all add: storeS1_def overdue_rows refund_tx_def storeA4(2) storeA_users [simplified] credit_def
      scenario_envelope_def IsPositive_def Sign_def Add_def RescalePair_def NewFromInt_def Let_def)

lemma storeS2:
  "red_envelopes storeS2 = [scenario_envelope RedEnvelopeTypeFixed (Decimal 1000 (- 2)) 3
     (Decimal 0 0) 0 RedEnvelopeStatusExpired]"
  "users storeS2 1 = Some (Decimal 9668 (- 2))"
  by (simp_all add: storeS2_def overdue_rows refund_tx_def storeA3(2) storeA_users [simplified] credit_def
      scenario_envelope_def IsPositive_def Sign_def Add_def RescalePair_def NewFromInt_def Let_def)

text \<open>The stores of these runs are reachable; the large envelopes.\<close>

lemma reachable_store0: "reachable store0"
  unfolding store0_def by (rule reachable.at_start)

lemma reachable_storeA1: "reachable storeA1"
  using reachable.by_Create[OF reachable_store0 storeA1(1)] .

lemma reachable_storeA3: "reachable storeA3"
  using reachable.by_Claim[OF reachable.by_Claim[OF reachable_storeA1 storeA2(1)] storeA3(1)] .



lemma storeU1:
  "Create True (\<lambda>k. True) ''abc'' 0 1
     (scenario_request RedEnvelopeTypeRandom (Decimal 9223372036854775809 (- 2)) 2) storeW0
     = (Inr (1, ''abc''), storeU1)"
  "red_envelopes storeU1 = [scenario_envelope RedEnvelopeTypeRandom
     (Decimal 9223372036854775809 (- 2)) 2 (Decimal 9223372036854775809 (- 2)) 2
     RedEnvelopeStatusActive]"
  "red_envelope_claims storeU1 = []"
  by (simp_all add: storeU1_def createdW_def storeW0_def wealthy_users_def handler_eval
      scenario_eval decimal_eval)

lemma storeU1_share:
  "calculateRandomAmount 0 (Decimal 9223372036854775809 (- 2)) 2 = None"
  by (simp add: calculateRandomAmount_def decimal_eval)

lemma storeU1_claim:
  "Claim True 0 ''abc'' 1 5 storeU1 = (Inl InternalError, storeU1)"
  by (simp add: Claim_def Claim_tx_def claimedAmount_of_def storeU1(2-) storeU1_share
      scenario_envelope_def hours24_def)

section \<open>The claims\<close>

text \<open>
  C1 (a defect of the code).  Every successful claim records its amount and lowers
  \<open>RemainingAmount\<close> by it (\<open>Claim_conserves\<close>), and on a Random envelope the remaining amount
  stays between zero and the total (\<open>reachable_random_within\<close>).  On a Fixed envelope the
  sum of the claim amounts is not bounded by \<open>TotalAmount\<close>: the per-share amount is rounded
  half up and paid to every claimant but the last without looking at what is left.  For 0.09
  split six ways \<^verbatim>\<open>Create\<close> accepts (0.015 per share), each of the first five claims pays
  0.02, so after five claims 0.10 has been paid out of 0.09 and \<open>RemainingAmount\<close> is -0.01;
  the sixth claimant then "receives" -0.01, that is, the balance is debited.
\<close>

theorem C1_fixed_overdraw:
  "Create True (\<lambda>k. True) ''abc'' 0 1
       (scenario_request RedEnvelopeTypeFixed (Decimal 9 (- 2)) 6) store0
     = (Inr (1, ''abc''), storeB1) \<and>
   map Amount (red_envelope_claims storeB6)
     = [Decimal 2 (- 2), Decimal 2 (- 2), Decimal 2 (- 2), Decimal 2 (- 2), Decimal 2 (- 2)] \<and>
   sum_list (map (\<lambda>c. dval (Amount c)) (red_envelope_claims storeB6)) = 10 / 100 \<and>
   dval (Decimal 9 (- 2)) = 9 / 100 \<and>
   red_envelopes storeB6 = [scenario_envelope RedEnvelopeTypeFixed (Decimal 9 (- 2)) 6
     (Decimal (- 1) (- 2)) 1 RedEnvelopeStatusActive] \<and>
   dval (Decimal (- 1) (- 2)) < 0 \<and>
   Claim True 0 ''abc'' 7 5 storeB6 = (Inr (Decimal (- 1) (- 2),
     scenario_envelope RedEnvelopeTypeFixed (Decimal 9 (- 2)) 6 (Decimal 0 (- 2)) 0
       RedEnvelopeStatusFinished), storeB7) \<and>
   users storeB6 7 = Some (Decimal 10000 (- 2)) \<and>
   users storeB7 7 = Some (Decimal 9999 (- 2))"
proof -
  have u: "users storeB6 7 = Some (Decimal 10000 (- 2))"
    by (simp add: storeB6(4) storeB5(4) storeB4(4) storeB3(4) storeB2(4) storeB1(4)
        scenario_users_def)
  have s: "sum_list (map (\<lambda>c. dval (Amount c)) (red_envelope_claims storeB6)) = 10 / 100"
    by (simp add: storeB6(3) dval_def)
  have v: "dval (Decimal 9 (- 2)) = 9 / 100" "dval (Decimal (- 1) (- 2)) < 0"
    by (simp_all add: dval_def)
  have m: "map Amount (red_envelope_claims storeB6)
     = [Decimal 2 (- 2), Decimal 2 (- 2), Decimal 2 (- 2), Decimal 2 (- 2), Decimal 2 (- 2)]"
    by (simp add: storeB6(3))
  have u7: "users storeB7 7 = Some (Decimal 9999 (- 2))"
    by (simp add: storeB7(4))
  show ?thesis
    using storeB1(1) storeB6(2) storeB7(1) u s v m u7 by simp
qed

text \<open>
  C2 (as amended).  Random path, \<^verbatim>\<open>calculateRandomAmount(remaining, count)\<close>: for
  \<open>count = 1\<close> the share is \<open>remaining\<close>; for \<open>count \<ge> 2\<close> and \<open>remaining \<ge> 0.01 * count\<close> a
  returned share satisfies \<open>0 < share \<le> remaining\<close> (and the call returns below \<open>2 ^ 63\<close>
  cents); in the even-split branch (\<open>count \<ge> 2\<close>, \<open>0 < remaining < 0.01 * count\<close>) the share is
  0.00 or 0.01, so it can be zero, and it is at most \<open>remaining\<close> when \<open>remaining\<close> is a whole
  number of cents.  Fixed path: the last claimant's share is \<open>RemainingAmount\<close> itself, and
  the share of any other claimant is at least 0.01 whenever the per-share check of
  \<^verbatim>\<open>Create\<close> has passed; nothing is said about it being at most \<open>remaining\<close>.
\<close>

theorem C2_share_bounds:
  "(count = 1 \<longrightarrow> calculateRandomAmount seed remaining count = Some remaining) \<and>
   (2 \<le> count \<and> of_int count / 100 \<le> dval remaining \<longrightarrow>
      (case calculateRandomAmount seed remaining count of
         None \<Rightarrow> 2 ^ 63 \<le> dval remaining * 100
       | Some share \<Rightarrow> 0 < dval share \<and> dval share \<le> dval remaining)) \<and>
   (2 \<le> count \<and> 0 < dval remaining \<and> dval remaining < of_int count / 100 \<longrightarrow>
      (\<exists>share. calculateRandomAmount seed remaining count = Some share \<and>
         (share = Decimal 0 (- 2) \<or> share = Decimal 1 (- 2)) \<and>
         (- 2 \<le> expo remaining \<longrightarrow> dval share \<le> dval remaining))) \<and>
   (Type e = RedEnvelopeTypeFixed \<and> RemainingCount e = 1 \<longrightarrow>
      claimedAmount_of seed e = Some (RemainingAmount e)) \<and>
   (Type e = RedEnvelopeTypeFixed \<and> RemainingCount e \<noteq> 1 \<and>
    Div (TotalAmount e) (NewFromInt (TotalCount e)) = Some perAmount \<and>
    \<not> LessThan perAmount minAmount \<longrightarrow>
      (\<exists>share. claimedAmount_of seed e = Some share \<and> 1 / 100 \<le> dval share))"
proof (intro conjI impI)
  show "calculateRandomAmount seed remaining count = Some remaining" if "count = 1"
    using that by (simp add: calculateRandomAmount_def)
  show "case calculateRandomAmount seed remaining count of
         None \<Rightarrow> 2 ^ 63 \<le> dval remaining * 100
       | Some share \<Rightarrow> 0 < dval share \<and> dval share \<le> dval remaining"
    if h: "2 \<le> count \<and> of_int count / 100 \<le> dval remaining"
  proof -
    have c: "2 \<le> count" and r: "of_int count / 100 \<le> dval remaining" using h by simp_all
    have nn: "(0::rat) \<le> of_int (count - 1) / 100" using c by simp
    show ?thesis
    proof (cases "calculateRandomAmount seed remaining count")
      case None
      then show ?thesis using calc_main[OF c r, of seed] by simp
    next
      case (Some share)
      then have "1 / 100 \<le> dval share"
        and "dval share \<le> dval remaining - of_int (count - 1) / 100"
        using calc_main[OF c r, of seed] by simp_all
      then have "0 < dval share \<and> dval share \<le> dval remaining"
        using nn by linarith
      then show ?thesis using Some by simp
    qed
  qed
  show "\<exists>share. calculateRandomAmount seed remaining count = Some share \<and>
         (share = Decimal 0 (- 2) \<or> share = Decimal 1 (- 2)) \<and>
         (- 2 \<le> expo remaining \<longrightarrow> dval share \<le> dval remaining)"
    if h: "2 \<le> count \<and> 0 < dval remaining \<and> dval remaining < of_int count / 100"
  proof -
    have c: "2 \<le> count" and p: "0 \<le> dval remaining"
      and lt: "dval remaining < of_int count / 100" using h by simp_all
    obtain s where s: "map_option (\<lambda>q. Round q 2) (Div remaining (NewFromInt count))
        = Some (Decimal s (- 2))" "s = 0 \<or> s = 1"
      using even_split_share[OF c p lt] by blast
    have eq: "calculateRandomAmount seed remaining count = Some (Decimal s (- 2))"
      using c lt s(1) by (simp add: calculateRandomAmount_def Let_def dsem)
    have "dval (Decimal s (- 2)) \<le> dval remaining" if "- 2 \<le> expo remaining"
    proof -
      have "1 / 100 \<le> dval remaining" using cents_pos_ge[OF that] h by simp
      moreover have "dval (Decimal s (- 2)) \<le> 1 / 100"
        using s(2) by (auto simp: dval_def)
      ultimately show ?thesis by simp
    qed
    then show ?thesis using eq s(2) by auto
  qed
  show "claimedAmount_of seed e = Some (RemainingAmount e)"
    if "Type e = RedEnvelopeTypeFixed \<and> RemainingCount e = 1"
    using that by (simp add: claimedAmount_of_def)
  show "\<exists>share. claimedAmount_of seed e = Some share \<and> 1 / 100 \<le> dval share"
    if h: "Type e = RedEnvelopeTypeFixed \<and> RemainingCount e \<noteq> 1 \<and>
      Div (TotalAmount e) (NewFromInt (TotalCount e)) = Some perAmount \<and>
      \<not> LessThan perAmount minAmount"
  proof -
    have "1 / 100 \<le> dval perAmount" using h by (simp add: dsem)
    then have "1 / 100 \<le> dval (Round perAmount 2)" by (rule Round2_ge_min)
    then show ?thesis using h by (simp add: claimedAmount_of_def)
  qed
qed

theorem C2_share_bounds_witness:
  "calculateRandomAmount 12345 (Decimal 334 (- 2)) 1 = Some (Decimal 334 (- 2)) \<and>
   calculateRandomAmount 12345 (Decimal 1000 (- 2)) 3 = Some (Decimal 358 (- 2)) \<and>
   0 < dval (Decimal 358 (- 2)) \<and> dval (Decimal 358 (- 2)) \<le> dval (Decimal 1000 (- 2)) \<and>
   calculateRandomAmount 12345 (Decimal 1 (- 2)) 2 = Some (Decimal 1 (- 2)) \<and>
   dval (Decimal 1 (- 2)) \<le> dval (Decimal 1 (- 2)) \<and>
   claimedAmount_of 0 (scenario_envelope RedEnvelopeTypeFixed (Decimal 1000 (- 2)) 3
     (Decimal 334 (- 2)) 1 RedEnvelopeStatusActive) = Some (Decimal 334 (- 2)) \<and>
   (\<exists>share. claimedAmount_of 0 (scenario_envelope RedEnvelopeTypeFixed (Decimal 1000 (- 2)) 3
     (Decimal 1000 (- 2)) 3 RedEnvelopeStatusActive) = Some share \<and> 1 / 100 \<le> dval share)"
proof -
  let ?e1 = "scenario_envelope RedEnvelopeTypeFixed (Decimal 1000 (- 2)) 3
     (Decimal 334 (- 2)) 1 RedEnvelopeStatusActive"
  let ?e3 = "scenario_envelope RedEnvelopeTypeFixed (Decimal 1000 (- 2)) 3
     (Decimal 1000 (- 2)) 3 RedEnvelopeStatusActive"
  note th = C2_share_bounds
  have 1: "calculateRandomAmount 12345 (Decimal 334 (- 2)) 1 = Some (Decimal 334 (- 2))"
    using th [THEN conjunct1, of 1 12345 "Decimal 334 (- 2)"] by simp
  have e2: "calculateRandomAmount 12345 (Decimal 1000 (- 2)) 3 = Some (Decimal 358 (- 2))"
    by (simp add: calculateRandomAmount_def decimal_eval)
  have 2: "0 < dval (Decimal 358 (- 2)) \<and> dval (Decimal 358 (- 2)) \<le> dval (Decimal 1000 (- 2))"
    using th [THEN conjunct2, THEN conjunct1, of 3 "Decimal 1000 (- 2)" 12345] e2
    by (simp add: dval_def)
  have e3: "calculateRandomAmount 12345 (Decimal 1 (- 2)) 2 = Some (Decimal 1 (- 2))"
    by (simp add: calculateRandomAmount_def decimal_eval)
  have 3: "dval (Decimal 1 (- 2)) \<le> dval (Decimal 1 (- 2))"
    using th [THEN conjunct2, THEN conjunct2, THEN conjunct1, of 2 "Decimal 1 (- 2)" 12345] e3
    by (simp add: dval_def)
  have 4: "claimedAmount_of 0 ?e1 = Some (Decimal 334 (- 2))"
    using th [THEN conjunct2, THEN conjunct2, THEN conjunct2, THEN conjunct1, of ?e1 0]
    by (simp add: scenario_envelope_def)
  have d: "Div (TotalAmount ?e3) (NewFromInt (TotalCount ?e3))
      = Some (Decimal 33333333333333333 (- 16))"
    by (simp add: scenario_envelope_def decimal_eval)
  have 5: "\<exists>share. claimedAmount_of 0 ?e3 = Some share \<and> 1 / 100 \<le> dval share"
    using th [THEN conjunct2, THEN conjunct2, THEN conjunct2, THEN conjunct2,
        of ?e3 "Decimal 33333333333333333 (- 16)" 0] d
    by (simp add: scenario_envelope_def decimal_eval)
  from 1 e2 2 e3 3 4 5 show ?thesis by blast
qed

text \<open>
  The bound \<open>0 < share \<le> remaining\<close> fails on both paths.  Random: with 0.01 left for three
  the even split gives 0.00.  Fixed: in the envelope of 0.09 for six, the fifth claimant finds
  0.01 left and receives 0.02.
\<close>

theorem C2_share_counterexample:
  "0 < dval (Decimal 1 (- 2)) \<and>
   calculateRandomAmount 0 (Decimal 1 (- 2)) 3 = Some (Decimal 0 (- 2)) \<and>
   \<not> 0 < dval (Decimal 0 (- 2)) \<and>
   red_envelopes storeB5 = [scenario_envelope RedEnvelopeTypeFixed (Decimal 9 (- 2)) 6
     (Decimal 1 (- 2)) 2 RedEnvelopeStatusActive] \<and>
   claimedAmount_of 0 (scenario_envelope RedEnvelopeTypeFixed (Decimal 9 (- 2)) 6
     (Decimal 1 (- 2)) 2 RedEnvelopeStatusActive) = Some (Decimal 2 (- 2)) \<and>
   \<not> dval (Decimal 2 (- 2)) \<le> dval (Decimal 1 (- 2))"
proof -
  have "calculateRandomAmount 0 (Decimal 1 (- 2)) 3 = Some (Decimal 0 (- 2))"
    by (simp add: calculateRandomAmount_def decimal_eval)
  moreover have "claimedAmount_of 0 (scenario_envelope RedEnvelopeTypeFixed (Decimal 9 (- 2)) 6
     (Decimal 1 (- 2)) 2 RedEnvelopeStatusActive) = Some (Decimal 2 (- 2))"
    by (simp add: claimedAmount_of_def scenario_envelope_def decimal_eval)
  ultimately show ?thesis
    using storeB5(2) by (simp add: dval_def)
qed

text \<open>
  C3 (a defect of the code).  A sweep that finds every overdue envelope already Expired changes
  nothing, and so does a second sweep run after a first has finished (\<open>sweep_all_expired\<close>,
  \<open>sweep_twice\<close>).  But the sweeper's transaction, which narrows its \<^verbatim>\<open>UPDATE\<close> to rows
  that are still Active, does not look at whether a row matched: the refund is paid from the
  row as the query returned it.  In \<open>storeS1\<close> the envelope was finished by a claim after the
  query; the transaction leaves the envelope Finished and still credits the creator 3.34 and
  appends a refund order.  In \<open>storeS2\<close> two runs that read the same row both pay the refund:
  the creator's balance goes from 90.00 to 96.68.
\<close>

theorem C3_refund_without_recheck:
  "overdue_rows = [scenario_envelope RedEnvelopeTypeFixed (Decimal 1000 (- 2)) 3
     (Decimal 334 (- 2)) 1 RedEnvelopeStatusActive] \<and>
   Claim True 0 ''abc'' 4 hours24 storeA3 = (Inr (Decimal 334 (- 2),
     scenario_envelope RedEnvelopeTypeFixed (Decimal 1000 (- 2)) 3 (Decimal 0 (- 2)) 0
       RedEnvelopeStatusFinished), storeA4) \<and>
   red_envelopes storeA4 = [scenario_envelope RedEnvelopeTypeFixed (Decimal 1000 (- 2)) 3
     (Decimal 0 (- 2)) 0 RedEnvelopeStatusFinished] \<and>
   red_envelopes storeS1 = red_envelopes storeA4 \<and>
   users storeA4 1 = Some (Decimal 9000 (- 2)) \<and>
   users storeS1 1 = Some (Decimal 9334 (- 2)) \<and>
   orders storeS1 = orders storeA4 @
     [\<lparr>PayerUserID = 1, PayeeUserID = 1, OrderAmount = Decimal 334 (- 2),
       OrderKind = OrderTypeLiteral ''red_envelope_refund''\<rparr>] \<and>
   users storeA3 1 = Some (Decimal 9000 (- 2)) \<and>
   users storeS2 1 = Some (Decimal 9668 (- 2))"
  by (simp only: overdue_rows last_second_claim storeA4(1,2) storeS1 storeS2 storeA_users
      simp_thms)

text \<open>
  C4 (as amended).  For a Random allocation with \<open>count \<ge> 2\<close> whose pool covers the minimum
  unit for everyone (\<open>remaining \<ge> 0.01 * count\<close>, so the even-split branch is not taken), every
  share \<^verbatim>\<open>calculateRandomAmount\<close> returns satisfies
  \<open>0.01 \<le> share \<le> remaining - 0.01 * (count - 1)\<close>, whatever the random draw.  The call
  returns unless the pool is at least \<open>2 ^ 63\<close> cents, where the \<^verbatim>\<open>int64\<close> argument of
  \<^verbatim>\<open>rand.Int63n\<close> can wrap to a non-positive number.  When the even-split branch is taken
  (\<open>0 \<le> remaining < 0.01 * count\<close>) the share is 0.00 or 0.01.
\<close>

theorem C4_random_share_bounds:
  "(2 \<le> count \<and> of_int count / 100 \<le> dval remaining \<longrightarrow>
      (case calculateRandomAmount seed remaining count of
         None \<Rightarrow> 2 ^ 63 \<le> dval remaining * 100
       | Some share \<Rightarrow> 1 / 100 \<le> dval share \<and>
           dval share \<le> dval remaining - of_int (count - 1) / 100)) \<and>
   (2 \<le> count \<and> 0 \<le> dval remaining \<and> dval remaining < of_int count / 100 \<longrightarrow>
      (\<exists>s. calculateRandomAmount seed remaining count = Some (Decimal s (- 2)) \<and>
           (s = 0 \<or> s = 1)))"
proof (intro conjI impI)
  show "case calculateRandomAmount seed remaining count of
         None \<Rightarrow> 2 ^ 63 \<le> dval remaining * 100
       | Some share \<Rightarrow> 1 / 100 \<le> dval share \<and>
           dval share \<le> dval remaining - of_int (count - 1) / 100"
    if "2 \<le> count \<and> of_int count / 100 \<le> dval remaining"
    using that by (intro calc_main) simp_all
  show "\<exists>s. calculateRandomAmount seed remaining count = Some (Decimal s (- 2)) \<and>
           (s = 0 \<or> s = 1)"
    if h: "2 \<le> count \<and> 0 \<le> dval remaining \<and> dval remaining < of_int count / 100"
  proof -
    obtain s where "map_option (\<lambda>q. Round q 2) (Div remaining (NewFromInt count))
        = Some (Decimal s (- 2))" "s = 0 \<or> s = 1"
      using even_split_share[of count remaining] h by blast
    then show ?thesis
      using h by (auto simp: calculateRandomAmount_def Let_def dsem)
  qed
qed

theorem C4_random_share_bounds_witness:
  "2 \<le> (3::int) \<and> of_int 3 / 100 \<le> dval (Decimal 1000 (- 2)) \<and>
   calculateRandomAmount 12345 (Decimal 1000 (- 2)) 3 = Some (Decimal 358 (- 2)) \<and>
   1 / 100 \<le> dval (Decimal 358 (- 2)) \<and>
   dval (Decimal 358 (- 2)) \<le> dval (Decimal 1000 (- 2)) - of_int (3 - 1) / 100 \<and>
   0 \<le> dval (Decimal 3 (- 2)) \<and> dval (Decimal 3 (- 2)) < of_int 4 / 100 \<and>
   (\<exists>s. calculateRandomAmount 12345 (Decimal 3 (- 2)) 4 = Some (Decimal s (- 2)) \<and>
        (s = 0 \<or> s = 1))"
proof -
  have h: "2 \<le> (3::int) \<and> of_int 3 / 100 \<le> dval (Decimal 1000 (- 2))"
    by (simp add: dval_def)
  have e: "calculateRandomAmount 12345 (Decimal 1000 (- 2)) 3 = Some (Decimal 358 (- 2))"
    by (simp add: calculateRandomAmount_def decimal_eval)
  have 1: "1 / 100 \<le> dval (Decimal 358 (- 2)) \<and>
      dval (Decimal 358 (- 2)) \<le> dval (Decimal 1000 (- 2)) - of_int (3 - 1) / 100"
    using C4_random_share_bounds [THEN conjunct1, rule_format, OF h, of 12345] e by simp
  have g: "2 \<le> (4::int) \<and> 0 \<le> dval (Decimal 3 (- 2)) \<and>
      dval (Decimal 3 (- 2)) < of_int 4 / 100"
    by (simp add: dval_def)
  have 2: "\<exists>s. calculateRandomAmount 12345 (Decimal 3 (- 2)) 4 = Some (Decimal s (- 2)) \<and>
        (s = 0 \<or> s = 1)"
    using C4_random_share_bounds [THEN conjunct2, rule_format, OF g] .
  from h e 1 g 2 show ?thesis by blast
qed

text \<open>
  In the even-split branch the bound of C4 cannot hold: with 0.01 left for three claimants the
  share is 0.00.
\<close>

theorem C4_fallback_counterexample:
  "calculateRandomAmount 0 (Decimal 1 (- 2)) 3 = Some (Decimal 0 (- 2)) \<and>
   \<not> 1 / 100 \<le> dval (Decimal 0 (- 2))"
  by (simp add: calculateRandomAmount_def decimal_eval dval_def)




text \<open>
  C6 (as amended).  After the feature check and the binding of the request (a code that is not
  empty), \<^verbatim>\<open>Claim\<close> rejects in this order, each time
  leaving the store as it was: not found when no envelope has the code; expired when the status
  is Expired or \<open>ExpiresAt < now\<close> (strictly: at \<open>now = ExpiresAt\<close> the envelope can still be
  claimed); finished when the status is Finished or \<open>RemainingCount \<le> 0\<close>; already claimed when
  a claim row of this user for this envelope exists.  Otherwise none of these four is returned
  and the claim succeeds with the computed share.
\<close>

theorem C6_claim_rejection_order:
  assumes "code \<noteq> []"
  shows
  "(find (\<lambda>e. Code e = code) (red_envelopes db) = None \<longrightarrow>
      Claim True seed code u now db = (Inl RedEnvelopeNotFound, db)) \<and>
   (find (\<lambda>e. Code e = code) (red_envelopes db) = Some e \<longrightarrow>
      (if Status e = RedEnvelopeStatusExpired \<or> ExpiresAt e < now
       then Claim True seed code u now db = (Inl RedEnvelopeExpired, db)
       else if Status e = RedEnvelopeStatusFinished \<or> RemainingCount e \<le> 0
       then Claim True seed code u now db = (Inl RedEnvelopeFinished, db)
       else if list_ex (\<lambda>c. RedEnvelopeID c = ID e \<and> UserID c = u) (red_envelope_claims db)
       then Claim True seed code u now db = (Inl RedEnvelopeAlreadyClaimed, db)
       else fst (Claim True seed code u now db) \<notin>
              {Inl RedEnvelopeNotFound, Inl RedEnvelopeExpired, Inl RedEnvelopeFinished,
               Inl RedEnvelopeAlreadyClaimed} \<and>
            (\<forall>a. claimedAmount_of seed e = Some a \<longrightarrow>
               (\<exists>e' db'. Claim True seed code u now db = (Inr (a, e'), db')))))"
  using assms by (auto simp: Claim_def Claim_tx_def Let_def split: option.splits)

theorem C6_claim_rejection_order_witness:
  "Claim True 0 ''zzz'' 2 5 storeA1 = (Inl RedEnvelopeNotFound, storeA1) \<and>
   Claim True 0 ''abc'' 2 (hours24 + 1) storeA1 = (Inl RedEnvelopeExpired, storeA1) \<and>
   Claim True 0 ''abc'' 5 5 storeA4 = (Inl RedEnvelopeFinished, storeA4) \<and>
   Claim True 0 ''abc'' 2 5 storeA2 = (Inl RedEnvelopeAlreadyClaimed, storeA2) \<and>
   (\<exists>e' db'. Claim True 0 ''abc'' 2 5 storeA1 = (Inr (Decimal 333 (- 2), e'), db'))"
proof -
  have ne: "''abc'' \<noteq> []" "''zzz'' \<noteq> []" by simp_all
  have 1: "Claim True 0 ''zzz'' 2 5 storeA1 = (Inl RedEnvelopeNotFound, storeA1)"
    using C6_claim_rejection_order [of "''zzz''" storeA1 0 2 5] ne
    by (simp add: storeA1(2) scenario_envelope_def)
  have 2: "Claim True 0 ''abc'' 2 (hours24 + 1) storeA1 = (Inl RedEnvelopeExpired, storeA1)"
    using ne C6_claim_rejection_order [of "''abc''" storeA1 0 2 "hours24 + 1"
        "scenario_envelope RedEnvelopeTypeFixed (Decimal 1000 (- 2)) 3 (Decimal 1000 (- 2)) 3
          RedEnvelopeStatusActive"]
    by (simp add: storeA1(2) scenario_envelope_def)
  have 3: "Claim True 0 ''abc'' 5 5 storeA4 = (Inl RedEnvelopeFinished, storeA4)"
    using ne C6_claim_rejection_order [of "''abc''" storeA4 0 5 5
        "scenario_envelope RedEnvelopeTypeFixed (Decimal 1000 (- 2)) 3 (Decimal 0 (- 2)) 0
          RedEnvelopeStatusFinished"]
    by (simp add: storeA4(2) scenario_envelope_def hours24_def)
  have 4: "Claim True 0 ''abc'' 2 5 storeA2 = (Inl RedEnvelopeAlreadyClaimed, storeA2)"
    using ne C6_claim_rejection_order [of "''abc''" storeA2 0 2 5
        "scenario_envelope RedEnvelopeTypeFixed (Decimal 1000 (- 2)) 3 (Decimal 667 (- 2)) 2
          RedEnvelopeStatusActive"]
    by (simp add: storeA2(2,3) scenario_envelope_def hours24_def)
  have a: "claimedAmount_of 0 (scenario_envelope RedEnvelopeTypeFixed (Decimal 1000 (- 2)) 3
      (Decimal 1000 (- 2)) 3 RedEnvelopeStatusActive) = Some (Decimal 333 (- 2))"
    by (simp add: claimedAmount_of_def scenario_envelope_def decimal_eval)
  have 5: "\<exists>e' db'. Claim True 0 ''abc'' 2 5 storeA1 = (Inr (Decimal 333 (- 2), e'), db')"
    using ne C6_claim_rejection_order [of "''abc''" storeA1 0 2 5
        "scenario_envelope RedEnvelopeTypeFixed (Decimal 1000 (- 2)) 3 (Decimal 1000 (- 2)) 3
          RedEnvelopeStatusActive"] a
    by (simp add: storeA1(2,3) scenario_envelope_def hours24_def)
  from 1 2 3 4 5 show ?thesis by blast
qed

text \<open>
  The expiry check is strict: at the instant \<open>now = ExpiresAt\<close> the claim is not rejected as
  expired but succeeds.
\<close>

theorem C6_expiry_boundary_counterexample:
  "find (\<lambda>e. Code e = ''abc'') (red_envelopes storeA1)
     = Some (scenario_envelope RedEnvelopeTypeFixed (Decimal 1000 (- 2)) 3 (Decimal 1000 (- 2)) 3
         RedEnvelopeStatusActive) \<and>
   ExpiresAt (scenario_envelope RedEnvelopeTypeFixed (Decimal 1000 (- 2)) 3 (Decimal 1000 (- 2)) 3
         RedEnvelopeStatusActive) \<le> hours24 \<and>
   fst (Claim True 0 ''abc'' 2 hours24 storeA1) = Inr (Decimal 333 (- 2),
     scenario_envelope RedEnvelopeTypeFixed (Decimal 1000 (- 2)) 3 (Decimal 667 (- 2)) 2
       RedEnvelopeStatusActive)"
  by (simp add: storeA1(2-) Claim_def Claim_tx_def claimedAmount_of_def credit_def
      scenario_envelope_def decimal_eval)






text \<open>
  C8 (as amended).  \<^verbatim>\<open>Create\<close> rejects an invalid request with a condition of its own for
  each cause, in this order, before its transaction and with the store unchanged: the feature
  is disabled; the amount is not positive; the amount has more than two decimal places (its
  exponent is below -2, which every amount that is not a whole number of cents has); for the
  Fixed type the per-share quotient, rounded to 16 places, is below 0.01, that is, the exact
  quotient is below \<open>0.01 - 5 / 10 ^ 17\<close>, which for fewer than \<open>2 * 10 ^ 14\<close> shares is the
  case exactly when the exact quotient is below 0.01; the pay key does not verify.  A request
  that none of these applies to passes the checks.  A Fixed request of 0.02 for three is
  rejected as too small.
\<close>

theorem C8_create_rejections:
  fixes req :: CreateRequest
  defines "amt \<equiv> ReqTotalAmount req"
  shows
  "(\<not> enabled \<longrightarrow> Create enabled V code now u req db = (Inl FeatureDisabled, db)) \<and>
   (enabled \<and> ShouldBindJSON req \<and> dval amt \<le> 0 \<longrightarrow>
      Create enabled V code now u req db = (Inl InvalidRedEnvelopeAmount, db)) \<and>
   (enabled \<and> ShouldBindJSON req \<and> 0 < dval amt \<and> (expo amt < - 2 \<or> dval amt * 100 \<notin> \<int>) \<longrightarrow>
      Create enabled V code now u req db = (Inl AmountDecimalPlacesExceeded, db)) \<and>
   (enabled \<and> ShouldBindJSON req \<and> 0 < dval amt \<and> - 2 \<le> expo amt \<and>
    ReqType req = RedEnvelopeTypeFixed \<and>
    dval amt / of_int (ReqTotalCount req) < 1 / 100 - 1 / (2 * 10 ^ 16) \<longrightarrow>
      Create enabled V code now u req db = (Inl AmountTooSmall, db)) \<and>
   (enabled \<and> ShouldBindJSON req \<and> 0 < dval amt \<and> - 2 \<le> expo amt \<and>
    ReqType req = RedEnvelopeTypeFixed \<and> ReqTotalCount req < 2 * 10 ^ 14 \<and>
    dval amt / of_int (ReqTotalCount req) < 1 / 100 \<longrightarrow>
      Create enabled V code now u req db = (Inl AmountTooSmall, db)) \<and>
   (enabled \<and> ShouldBindJSON req \<and> 0 < dval amt \<and> - 2 \<le> expo amt \<and>
    (ReqType req = RedEnvelopeTypeRandom \<or>
     1 / 100 - 1 / (2 * 10 ^ 16) \<le> dval amt / of_int (ReqTotalCount req)) \<and>
    \<not> V (ReqPayKey req) \<longrightarrow>
      Create enabled V code now u req db = (Inl PayKeyIncorrect, db)) \<and>
   (enabled \<and> ShouldBindJSON req \<and> 0 < dval amt \<and> - 2 \<le> expo amt \<and>
    (ReqType req = RedEnvelopeTypeRandom \<or>
     1 / 100 - 1 / (2 * 10 ^ 16) \<le> dval amt / of_int (ReqTotalCount req)) \<and>
    V (ReqPayKey req) \<longrightarrow>
      Create_checks enabled V req = None) \<and>
   Create True V code now u (scenario_request RedEnvelopeTypeFixed (Decimal 2 (- 2)) 3) db
     = (Inl AmountTooSmall, db)"
proof (intro conjI impI)
  have per: "\<exists>per. Div amt (NewFromInt (ReqTotalCount req)) = Some per \<and>
           (dval per < 1 / 100 \<longleftrightarrow>
            dval amt / of_int (ReqTotalCount req) < 1 / 100 - 1 / (2 * 10 ^ 16))"
    if "ShouldBindJSON req" "0 < dval amt"
    using that by (intro Div_below_min_iff) (simp_all add: ShouldBindJSON_def)
  show "Create enabled V code now u req db = (Inl FeatureDisabled, db)" if "\<not> enabled"
    using that by (simp add: Create_def Create_checks_def)
  show "Create enabled V code now u req db = (Inl InvalidRedEnvelopeAmount, db)"
    if "enabled \<and> ShouldBindJSON req \<and> dval amt \<le> 0"
    using that by (simp add: Create_def Create_checks_def amt_def dsem)
  show "Create enabled V code now u req db = (Inl AmountDecimalPlacesExceeded, db)"
    if "enabled \<and> ShouldBindJSON req \<and> 0 < dval amt \<and> (expo amt < - 2 \<or> dval amt * 100 \<notin> \<int>)"
  proof -
    have "expo amt < - 2" using that expo_ge_cents[of amt] by force
    then show ?thesis
      using that by (simp add: Create_def Create_checks_def amt_def dsem Exponent_def)
  qed
  show "Create enabled V code now u req db = (Inl AmountTooSmall, db)"
    if h: "enabled \<and> ShouldBindJSON req \<and> 0 < dval amt \<and> - 2 \<le> expo amt \<and>
      ReqType req = RedEnvelopeTypeFixed \<and>
      dval amt / of_int (ReqTotalCount req) < 1 / 100 - 1 / (2 * 10 ^ 16)"
  proof -
    obtain p where "Div amt (NewFromInt (ReqTotalCount req)) = Some p" "dval p < 1 / 100"
      using per h by blast
    then show ?thesis
      using h by (simp add: Create_def Create_checks_def amt_def dsem Exponent_def)
  qed
  show "Create enabled V code now u req db = (Inl AmountTooSmall, db)"
    if h: "enabled \<and> ShouldBindJSON req \<and> 0 < dval amt \<and> - 2 \<le> expo amt \<and>
      ReqType req = RedEnvelopeTypeFixed \<and> ReqTotalCount req < 2 * 10 ^ 14 \<and>
      dval amt / of_int (ReqTotalCount req) < 1 / 100"
  proof -
    have n: "1 \<le> ReqTotalCount req" using h by (simp add: ShouldBindJSON_def)
    obtain p where "Div amt (NewFromInt (ReqTotalCount req)) = Some p" "dval p < 1 / 100"
      using Div_below_min[of amt "ReqTotalCount req"] h n by auto
    then show ?thesis
      using h by (simp add: Create_def Create_checks_def amt_def dsem Exponent_def)
  qed
  show "Create enabled V code now u req db = (Inl PayKeyIncorrect, db)"
    if h: "enabled \<and> ShouldBindJSON req \<and> 0 < dval amt \<and> - 2 \<le> expo amt \<and>
      (ReqType req = RedEnvelopeTypeRandom \<or>
       1 / 100 - 1 / (2 * 10 ^ 16) \<le> dval amt / of_int (ReqTotalCount req)) \<and>
      \<not> V (ReqPayKey req)"
  proof (cases "ReqType req = RedEnvelopeTypeRandom")
    case True
    then show ?thesis
      using h by (simp add: Create_def Create_checks_def amt_def dsem Exponent_def)
  next
    case False
    then have "\<not> dval amt / of_int (ReqTotalCount req) < 1 / 100 - 1 / (2 * 10 ^ 16)"
      using h by auto
    then obtain p where "Div amt (NewFromInt (ReqTotalCount req)) = Some p" "\<not> dval p < 1 / 100"
      using per h by blast
    then show ?thesis
      using h by (simp add: Create_def Create_checks_def amt_def dsem Exponent_def)
  qed
  show "Create_checks enabled V req = None"
    if h: "enabled \<and> ShouldBindJSON req \<and> 0 < dval amt \<and> - 2 \<le> expo amt \<and>
      (ReqType req = RedEnvelopeTypeRandom \<or>
       1 / 100 - 1 / (2 * 10 ^ 16) \<le> dval amt / of_int (ReqTotalCount req)) \<and>
      V (ReqPayKey req)"
  proof (cases "ReqType req = RedEnvelopeTypeRandom")
    case True
    then show ?thesis
      using h by (simp add: Create_checks_def amt_def dsem Exponent_def)
  next
    case False
    then have "\<not> dval amt / of_int (ReqTotalCount req) < 1 / 100 - 1 / (2 * 10 ^ 16)"
      using h by auto
    then obtain p where "Div amt (NewFromInt (ReqTotalCount req)) = Some p" "\<not> dval p < 1 / 100"
      using per h by blast
    then show ?thesis
      using h by (simp add: Create_checks_def amt_def dsem Exponent_def)
  qed
  show "Create True V code now u (scenario_request RedEnvelopeTypeFixed (Decimal 2 (- 2)) 3) db
      = (Inl AmountTooSmall, db)"
    by (simp add: Create_def Create_checks_def ShouldBindJSON_def scenario_request_def decimal_eval)
qed

theorem C8_create_rejections_witness:
  "Create False (\<lambda>k. True) ''abc'' 0 1
       (scenario_request RedEnvelopeTypeFixed (Decimal 1000 (- 2)) 3) store0
     = (Inl FeatureDisabled, store0) \<and>
   Create True (\<lambda>k. True) ''abc'' 0 1
       (scenario_request RedEnvelopeTypeFixed (Decimal 0 (- 2)) 3) store0
     = (Inl InvalidRedEnvelopeAmount, store0) \<and>
   Create True (\<lambda>k. True) ''abc'' 0 1
       (scenario_request RedEnvelopeTypeFixed (Decimal 1005 (- 3)) 3) store0
     = (Inl AmountDecimalPlacesExceeded, store0) \<and>
   Create True (\<lambda>k. True) ''abc'' 0 1
       (scenario_request RedEnvelopeTypeFixed (Decimal 2 (- 2)) 3) store0
     = (Inl AmountTooSmall, store0) \<and>
   Create True (\<lambda>k. False) ''abc'' 0 1
       (scenario_request RedEnvelopeTypeFixed (Decimal 1000 (- 2)) 3) store0
     = (Inl PayKeyIncorrect, store0) \<and>
   Create_checks True (\<lambda>k. True)
       (scenario_request RedEnvelopeTypeFixed (Decimal 1000 (- 2)) 3) = None"
proof -
  let ?ok = "\<lambda>k::string. True"
  let ?req = "scenario_request RedEnvelopeTypeFixed"
  have 1: "Create False ?ok ''abc'' 0 1 (?req (Decimal 1000 (- 2)) 3) store0
      = (Inl FeatureDisabled, store0)"
    using C8_create_rejections [where enabled = False] by simp
  have 2: "Create True ?ok ''abc'' 0 1 (?req (Decimal 0 (- 2)) 3) store0
      = (Inl InvalidRedEnvelopeAmount, store0)"
    using C8_create_rejections [where enabled = True and req = "?req (Decimal 0 (- 2)) 3"
        and V = ?ok and code = "''abc''" and now = 0 and u = 1 and db = store0]
    by (simp add: scenario_request_def ShouldBindJSON_def dval_def)
  have 3: "Create True ?ok ''abc'' 0 1 (?req (Decimal 1005 (- 3)) 3) store0
      = (Inl AmountDecimalPlacesExceeded, store0)"
    using C8_create_rejections [where enabled = True and req = "?req (Decimal 1005 (- 3)) 3"
        and V = ?ok and code = "''abc''" and now = 0 and u = 1 and db = store0]
    by (simp add: scenario_request_def ShouldBindJSON_def dval_def)
  have 4: "Create True ?ok ''abc'' 0 1 (?req (Decimal 2 (- 2)) 3) store0
      = (Inl AmountTooSmall, store0)"
    using C8_create_rejections [where enabled = True and req = "?req (Decimal 2 (- 2)) 3"
        and V = ?ok and code = "''abc''" and now = 0 and u = 1 and db = store0]
    by (simp add: scenario_request_def ShouldBindJSON_def dval_def)
  have 5: "Create True (\<lambda>k. False) ''abc'' 0 1 (?req (Decimal 1000 (- 2)) 3) store0
      = (Inl PayKeyIncorrect, store0)"
    using C8_create_rejections [where enabled = True and req = "?req (Decimal 1000 (- 2)) 3"
        and V = "\<lambda>k. False" and code = "''abc''" and now = 0 and u = 1 and db = store0]
    by (simp add: scenario_request_def ShouldBindJSON_def dval_def)
  have 6: "Create_checks True ?ok (?req (Decimal 1000 (- 2)) 3) = None"
    using C8_create_rejections [where enabled = True and req = "?req (Decimal 1000 (- 2)) 3"
        and V = ?ok]
    by (simp add: scenario_request_def ShouldBindJSON_def dval_def)
  from 1 2 3 4 5 6 show ?thesis by (intro conjI)
qed

text \<open>
  With \<open>2 * 10 ^ 14\<close> shares a per-share amount below 0.01 passes: 1999999999999.99 split
  \<open>2 * 10 ^ 14\<close> ways is 0.00999999999999995 each, which is 0.0100000000000000 at 16 places.
  The request passes every check; the envelope is created for a creator who can pay, and a
  creator who cannot is turned away only inside the transaction.
\<close>

theorem C8_per_share_counterexample:
  "ShouldBindJSON
     (scenario_request RedEnvelopeTypeFixed (Decimal 199999999999999 (- 2)) 200000000000000) \<and>
   dval (Decimal 199999999999999 (- 2)) / of_int 200000000000000 < 1 / 100 \<and>
   Create_checks True (\<lambda>k. True)
     (scenario_request RedEnvelopeTypeFixed (Decimal 199999999999999 (- 2)) 200000000000000)
     = None \<and>
   fst (Create True (\<lambda>k. True) ''abc'' 0 1
     (scenario_request RedEnvelopeTypeFixed (Decimal 199999999999999 (- 2)) 200000000000000)
     storeW0) = Inr (1, ''abc'') \<and>
   Create True (\<lambda>k. True) ''abc'' 0 1
     (scenario_request RedEnvelopeTypeFixed (Decimal 199999999999999 (- 2)) 200000000000000)
     store0 = (Inl InsufficientBalance, store0)"
proof -
  let ?req = "scenario_request RedEnvelopeTypeFixed (Decimal 199999999999999 (- 2))
     200000000000000"
  have b: "ShouldBindJSON ?req"
    by (simp add: ShouldBindJSON_def scenario_request_def)
  have q: "dval (Decimal 199999999999999 (- 2)) / of_int 200000000000000 < 1 / 100"
    by (simp add: dval_def)
  have c: "Create_checks True (\<lambda>k. True) ?req = None"
    by (simp add: Create_checks_def ShouldBindJSON_def scenario_request_def decimal_eval)
  have w: "fst (Create True (\<lambda>k. True) ''abc'' 0 1 ?req storeW0) = Inr (1, ''abc'')"
    by (simp add: handler_eval scenario_eval storeW0_def wealthy_users_def decimal_eval)
  have s: "Create True (\<lambda>k. True) ''abc'' 0 1 ?req store0 = (Inl InsufficientBalance, store0)"
    by (simp add: handler_eval scenario_eval decimal_eval)
  from b q c w s show ?thesis by (intro conjI)
qed

text \<open>
  C9 (as amended).  No call of \<^verbatim>\<open>Claim\<close> answers \<^verbatim>\<open>CannotClaimOwnRedEnvelope\<close>.  A claim
  that passes the generic checks (the code is not empty, the envelope is found, Active, not
  past \<open>ExpiresAt\<close>, has shares left, and the claimer \<open>w\<close> has no claim row) has the same
  outcome whether \<open>w\<close> is the creator or any other user \<open>v\<close>: if the share computation returns
  \<open>a\<close> it succeeds, credits \<open>w\<close> with \<open>a\<close>, records the claim row and the order and updates the
  envelope; if the computation panics the claim fails and changes nothing.  For an envelope
  of a reachable store the computation returns, and the creator's claim succeeds, whenever
  the envelope is Fixed or holds less than \<open>2 ^ 63\<close> cents.
\<close>

theorem C9_self_claim_permitted:
  "fst (Claim enabled seed code u now db) \<noteq> Inl CannotClaimOwnRedEnvelope \<and>
   (code \<noteq> [] \<and> find (\<lambda>e. Code e = code) (red_envelopes db) = Some e \<and>
    Status e = RedEnvelopeStatusActive \<and> now \<le> ExpiresAt e \<and> 0 < RemainingCount e \<and>
    (w = CreatorID e \<or> w = v) \<and>
    \<not> list_ex (\<lambda>c. RedEnvelopeID c = ID e \<and> UserID c = w) (red_envelope_claims db) \<longrightarrow>
    Claim True seed code w now db =
      (case claimedAmount_of seed e of
         None \<Rightarrow> (Inl InternalError, db)
       | Some a \<Rightarrow>
           (Inr (a, e\<lparr>RemainingCount := RemainingCount e - 1,
                      RemainingAmount := Sub (RemainingAmount e) a,
                      Status := (if RemainingCount e - 1 \<le> 0 then RedEnvelopeStatusFinished
                                 else Status e)\<rparr>),
            db\<lparr>users := credit w a (users db),
               red_envelopes := map (\<lambda>x. if ID x = ID e then
                   x\<lparr>RemainingCount := RemainingCount e - 1,
                     RemainingAmount := Sub (RemainingAmount e) a,
                     Status := (if RemainingCount e - 1 \<le> 0 then RedEnvelopeStatusFinished
                                else Status e)\<rparr> else x) (red_envelopes db),
               red_envelope_claims := red_envelope_claims db @
                   [\<lparr>RedEnvelopeID = ID e, UserID = w, Amount = a\<rparr>],
               orders := orders db @
                   [\<lparr>PayerUserID = CreatorID e, PayeeUserID = w, OrderAmount = a,
                     OrderKind = OrderTypeRedEnvelopeReceive\<rparr>]\<rparr>))) \<and>
   (reachable db \<and> code \<noteq> [] \<and> find (\<lambda>e. Code e = code) (red_envelopes db) = Some e \<and>
    Status e = RedEnvelopeStatusActive \<and> now \<le> ExpiresAt e \<and> 0 < RemainingCount e \<and>
    \<not> list_ex (\<lambda>c. RedEnvelopeID c = ID e \<and> UserID c = CreatorID e) (red_envelope_claims db) \<and>
    (Type e = RedEnvelopeTypeFixed \<or> dval (RemainingAmount e) * 100 < 2 ^ 63) \<longrightarrow>
    (\<exists>a. claimedAmount_of seed e = Some a \<and>
       Claim True seed code (CreatorID e) now db =
         (Inr (a, e\<lparr>RemainingCount := RemainingCount e - 1,
                    RemainingAmount := Sub (RemainingAmount e) a,
                    Status := (if RemainingCount e - 1 \<le> 0 then RedEnvelopeStatusFinished
                               else Status e)\<rparr>),
          db\<lparr>users := credit (CreatorID e) a (users db),
             red_envelopes := map (\<lambda>x. if ID x = ID e then
                 x\<lparr>RemainingCount := RemainingCount e - 1,
                   RemainingAmount := Sub (RemainingAmount e) a,
                   Status := (if RemainingCount e - 1 \<le> 0 then RedEnvelopeStatusFinished
                              else Status e)\<rparr> else x) (red_envelopes db),
             red_envelope_claims := red_envelope_claims db @
                 [\<lparr>RedEnvelopeID = ID e, UserID = CreatorID e, Amount = a\<rparr>],
             orders := orders db @
                 [\<lparr>PayerUserID = CreatorID e, PayeeUserID = CreatorID e, OrderAmount = a,
                   OrderKind = OrderTypeRedEnvelopeReceive\<rparr>]\<rparr>)))"
  (is "?never \<and> (?H1 \<longrightarrow> ?C1) \<and> (?H2 \<longrightarrow> ?C2)")
proof (intro conjI impI)
  show ?never
    by (simp add: Claim_def Claim_tx_def Let_def split: option.split sum.split prod.split)
next
  assume ?H1
  then show ?C1 by (intro Claim_passes) simp_all
next
  assume h: ?H2
  then have f: "find (\<lambda>e. Code e = code) (red_envelopes db) = Some e" and r: "reachable db"
    by simp_all
  have "1 \<le> TotalCount e" using found_as_created(3)[OF r f] .
  then obtain a where a: "claimedAmount_of seed e = Some a"
    using claimedAmount_of_returns[of e seed] h by auto
  have "Claim True seed code (CreatorID e) now db =
      (case claimedAmount_of seed e of
         None \<Rightarrow> (Inl InternalError, db)
       | Some a \<Rightarrow>
           (Inr (a, e\<lparr>RemainingCount := RemainingCount e - 1,
                      RemainingAmount := Sub (RemainingAmount e) a,
                      Status := (if RemainingCount e - 1 \<le> 0 then RedEnvelopeStatusFinished
                                 else Status e)\<rparr>),
            db\<lparr>users := credit (CreatorID e) a (users db),
               red_envelopes := map (\<lambda>x. if ID x = ID e then
                   x\<lparr>RemainingCount := RemainingCount e - 1,
                     RemainingAmount := Sub (RemainingAmount e) a,
                     Status := (if RemainingCount e - 1 \<le> 0 then RedEnvelopeStatusFinished
                                else Status e)\<rparr> else x) (red_envelopes db),
               red_envelope_claims := red_envelope_claims db @
                   [\<lparr>RedEnvelopeID = ID e, UserID = CreatorID e, Amount = a\<rparr>],
               orders := orders db @
                   [\<lparr>PayerUserID = CreatorID e, PayeeUserID = CreatorID e, OrderAmount = a,
                     OrderKind = OrderTypeRedEnvelopeReceive\<rparr>]\<rparr>))"
    using h by (intro Claim_passes) simp_all
  then show ?C2 using a by simp
qed

theorem C9_self_claim_permitted_witness:
  "reachable storeA1 \<and>
   find (\<lambda>e. Code e = ''abc'') (red_envelopes storeA1)
     = Some (scenario_envelope RedEnvelopeTypeFixed (Decimal 1000 (- 2)) 3 (Decimal 1000 (- 2)) 3
         RedEnvelopeStatusActive) \<and>
   CreatorID (scenario_envelope RedEnvelopeTypeFixed (Decimal 1000 (- 2)) 3 (Decimal 1000 (- 2)) 3
     RedEnvelopeStatusActive) = 1 \<and>
   fst (Claim True 0 ''abc'' 1 5 storeA1) = Inr (Decimal 333 (- 2),
     scenario_envelope RedEnvelopeTypeFixed (Decimal 1000 (- 2)) 3 (Decimal 667 (- 2)) 2
       RedEnvelopeStatusActive) \<and>
   users (snd (Claim True 0 ''abc'' 1 5 storeA1)) 1 = Some (Decimal 9333 (- 2)) \<and>
   red_envelope_claims (snd (Claim True 0 ''abc'' 1 5 storeA1))
     = [\<lparr>RedEnvelopeID = 1, UserID = 1, Amount = Decimal 333 (- 2)\<rparr>] \<and>
   red_envelopes (snd (Claim True 0 ''abc'' 1 5 storeA1))
     = [scenario_envelope RedEnvelopeTypeFixed (Decimal 1000 (- 2)) 3 (Decimal 667 (- 2)) 2
       RedEnvelopeStatusActive]"
proof -
  let ?e = "scenario_envelope RedEnvelopeTypeFixed (Decimal 1000 (- 2)) 3 (Decimal 1000 (- 2)) 3
     RedEnvelopeStatusActive"
  have f: "find (\<lambda>e. Code e = ''abc'') (red_envelopes storeA1) = Some ?e"
    by (simp add: storeA1(2) scenario_envelope_def)
  have c: "CreatorID ?e = 1" by (simp add: scenario_envelope_def)
  have share: "claimedAmount_of 0 ?e = Some (Decimal 333 (- 2))"
    by (simp add: claimedAmount_of_def scenario_envelope_def decimal_eval)
  have h: "reachable storeA1 \<and> ''abc'' \<noteq> [] \<and>
    find (\<lambda>e. Code e = ''abc'') (red_envelopes storeA1) = Some ?e \<and>
    Status ?e = RedEnvelopeStatusActive \<and> 5 \<le> ExpiresAt ?e \<and> 0 < RemainingCount ?e \<and>
    \<not> list_ex (\<lambda>c. RedEnvelopeID c = ID ?e \<and> UserID c = CreatorID ?e)
         (red_envelope_claims storeA1) \<and>
    (Type ?e = RedEnvelopeTypeFixed \<or> dval (RemainingAmount ?e) * 100 < 2 ^ 63)"
    using reachable_storeA1 f by (simp add: storeA1(3) scenario_envelope_def hours24_def)
  from C9_self_claim_permitted [THEN conjunct2, THEN conjunct2, rule_format, OF h, of 0]
  obtain a where a: "claimedAmount_of 0 ?e = Some a"
    and run: "Claim True 0 ''abc'' (CreatorID ?e) 5 storeA1 =
         (Inr (a, ?e\<lparr>RemainingCount := RemainingCount ?e - 1,
                    RemainingAmount := Sub (RemainingAmount ?e) a,
                    Status := (if RemainingCount ?e - 1 \<le> 0 then RedEnvelopeStatusFinished
                               else Status ?e)\<rparr>),
          storeA1\<lparr>users := credit (CreatorID ?e) a (users storeA1),
             red_envelopes := map (\<lambda>x. if ID x = ID ?e then
                 x\<lparr>RemainingCount := RemainingCount ?e - 1,
                   RemainingAmount := Sub (RemainingAmount ?e) a,
                   Status := (if RemainingCount ?e - 1 \<le> 0 then RedEnvelopeStatusFinished
                              else Status ?e)\<rparr> else x) (red_envelopes storeA1),
             red_envelope_claims := red_envelope_claims storeA1 @
                 [\<lparr>RedEnvelopeID = ID ?e, UserID = CreatorID ?e, Amount = a\<rparr>],
             orders := orders storeA1 @
                 [\<lparr>PayerUserID = CreatorID ?e, PayeeUserID = CreatorID ?e, OrderAmount = a,
                   OrderKind = OrderTypeRedEnvelopeReceive\<rparr>]\<rparr>)"
    by blast
  from a share have a333: "a = Decimal 333 (- 2)" by simp
  have run1: "Claim True 0 ''abc'' 1 5 storeA1 =
         (Inr (Decimal 333 (- 2), scenario_envelope RedEnvelopeTypeFixed (Decimal 1000 (- 2)) 3
            (Decimal 667 (- 2)) 2 RedEnvelopeStatusActive),
          storeA1\<lparr>users := (users storeA1)(1 \<mapsto> Decimal 9333 (- 2)),
             red_envelopes := [scenario_envelope RedEnvelopeTypeFixed (Decimal 1000 (- 2)) 3
                (Decimal 667 (- 2)) 2 RedEnvelopeStatusActive],
             red_envelope_claims := [\<lparr>RedEnvelopeID = 1, UserID = 1, Amount = Decimal 333 (- 2)\<rparr>],
             orders := orders storeA1 @
                 [\<lparr>PayerUserID = 1, PayeeUserID = 1, OrderAmount = Decimal 333 (- 2),
                   OrderKind = OrderTypeRedEnvelopeReceive\<rparr>]\<rparr>)"
    using run unfolding a333
    by (simp add: storeA1(2-) scenario_envelope_def credit_def decimal_eval)
  have p: "fst (Claim True 0 ''abc'' 1 5 storeA1) = Inr (Decimal 333 (- 2),
      scenario_envelope RedEnvelopeTypeFixed (Decimal 1000 (- 2)) 3 (Decimal 667 (- 2)) 2
        RedEnvelopeStatusActive)"
    "users (snd (Claim True 0 ''abc'' 1 5 storeA1)) 1 = Some (Decimal 9333 (- 2))"
    "red_envelope_claims (snd (Claim True 0 ''abc'' 1 5 storeA1))
      = [\<lparr>RedEnvelopeID = 1, UserID = 1, Amount = Decimal 333 (- 2)\<rparr>]"
    "red_envelopes (snd (Claim True 0 ''abc'' 1 5 storeA1))
      = [scenario_envelope RedEnvelopeTypeFixed (Decimal 1000 (- 2)) 3 (Decimal 667 (- 2)) 2
        RedEnvelopeStatusActive]"
    unfolding run1 by simp_all
  from reachable_storeA1 f c p show ?thesis by (intro conjI)
qed

text \<open>
  A claim by the creator that passes the generic checks need not succeed: on a Random
  envelope of \<open>2 ^ 63 + 1\<close> cents for two the argument of \<^verbatim>\<open>rand.Int63n\<close> wraps to a
  negative number, the share computation panics and the claim fails.
\<close>

theorem C9_large_random_counterexample:
  "Create True (\<lambda>k. True) ''abc'' 0 1
     (scenario_request RedEnvelopeTypeRandom (Decimal 9223372036854775809 (- 2)) 2) storeW0
     = (Inr (1, ''abc''), storeU1) \<and>
   find (\<lambda>e. Code e = ''abc'') (red_envelopes storeU1)
     = Some (scenario_envelope RedEnvelopeTypeRandom (Decimal 9223372036854775809 (- 2)) 2
         (Decimal 9223372036854775809 (- 2)) 2 RedEnvelopeStatusActive) \<and>
   CreatorID (scenario_envelope RedEnvelopeTypeRandom (Decimal 9223372036854775809 (- 2)) 2
         (Decimal 9223372036854775809 (- 2)) 2 RedEnvelopeStatusActive) = 1 \<and>
   5 \<le> ExpiresAt (scenario_envelope RedEnvelopeTypeRandom (Decimal 9223372036854775809 (- 2)) 2
         (Decimal 9223372036854775809 (- 2)) 2 RedEnvelopeStatusActive) \<and>
   red_envelope_claims storeU1 = [] \<and>
   Claim True 0 ''abc'' 1 5 storeU1 = (Inl InternalError, storeU1)"
proof -
  have f: "find (\<lambda>e. Code e = ''abc'') (red_envelopes storeU1)
     = Some (scenario_envelope RedEnvelopeTypeRandom (Decimal 9223372036854775809 (- 2)) 2
         (Decimal 9223372036854775809 (- 2)) 2 RedEnvelopeStatusActive)"
    by (simp add: storeU1(2) scenario_envelope_def)
  have c: "CreatorID (scenario_envelope RedEnvelopeTypeRandom (Decimal 9223372036854775809 (- 2)) 2
         (Decimal 9223372036854775809 (- 2)) 2 RedEnvelopeStatusActive) = 1"
    "5 \<le> ExpiresAt (scenario_envelope RedEnvelopeTypeRandom (Decimal 9223372036854775809 (- 2)) 2
         (Decimal 9223372036854775809 (- 2)) 2 RedEnvelopeStatusActive)"
    by (simp_all add: scenario_envelope_def hours24_def)
  from storeU1(1) f c storeU1(3) storeU1_claim show ?thesis by (intro conjI)
qed

text \<open>
  C10.  In every store reachable by \<^verbatim>\<open>Create\<close>, \<^verbatim>\<open>Claim\<close> and the sweeper, a Finished
  envelope has a remaining amount of zero and a remaining count of zero: an envelope becomes
  Finished only by the claim that finds \<open>RemainingCount = 1\<close>, and that claim takes the whole
  remaining amount, for both types.
\<close>

theorem C10_finished_is_empty:
  assumes "reachable db" and "e \<in> set (red_envelopes db)"
    and "Status e = RedEnvelopeStatusFinished"
  shows "IsZero (RemainingAmount e) \<and> dval (RemainingAmount e) = 0 \<and> RemainingCount e = 0"
  using reachable_finished_empty[OF assms(1)] assms(2,3)
  by (auto simp: list_all_iff finished_empty_def dsem)


theorem C10_finished_is_empty_witness:
  "reachable storeA4 \<and>
   scenario_envelope RedEnvelopeTypeFixed (Decimal 1000 (- 2)) 3 (Decimal 0 (- 2)) 0
     RedEnvelopeStatusFinished \<in> set (red_envelopes storeA4) \<and>
   IsZero (Decimal 0 (- 2))"
proof -
  let ?e = "scenario_envelope RedEnvelopeTypeFixed (Decimal 1000 (- 2)) 3 (Decimal 0 (- 2)) 0
     RedEnvelopeStatusFinished"
  have "reachable store0" unfolding store0_def by (rule reachable.at_start)
  then have "reachable storeA1" using storeA1(1) by (rule reachable.by_Create)
  then have "reachable storeA2" using storeA2(1) by (rule reachable.by_Claim)
  then have "reachable storeA3" using storeA3(1) by (rule reachable.by_Claim)
  then have r: "reachable storeA4" using storeA4(1) by (rule reachable.by_Claim)
  have m: "?e \<in> set (red_envelopes storeA4)" by (simp add: storeA4(2))
  have s: "Status ?e = RedEnvelopeStatusFinished" by (simp add: scenario_envelope_def)
  have "IsZero (RemainingAmount ?e)"
    using C10_finished_is_empty [OF r m s] by simp
  then show ?thesis using r m by (simp add: scenario_envelope_def)
qed

end
